theory Spec2Isabelle
  imports Main "HOL-Library.Multiset"
begin

section \<open>KuCoin historical data dumper: the fetch-and-combine pipeline\<close>

text \<open>
  A shallow embedding of \<^verbatim>\<open>KuCoinDataFetcher.get_combined_data\<close> and of its nested
  function \<^verbatim>\<open>download_and_process\<close> (\<^verbatim>\<open>kucoin_historical_data_dumper.py\<close>).

  Everything the method reaches outside the interpreter is a field of the record
  \<open>world\<close>: the browser and the scraped date listing, the HTTP server, the zip and
  CSV readers, the platform's \<^verbatim>\<open>os.path.join\<close>, the file system calls and the dtype
  conversion of pandas. Each of them either raises (\<open>Inl\<close>, or \<open>Some\<close> for the
  calls that return nothing) or returns. The exceptions are the subclasses of
  \<^verbatim>\<open>Exception\<close>, the ones that \<^verbatim>\<open>except Exception\<close> catches. The world does
  not change during a call: the server answers a URL the same way each time it is
  asked, and whether a path can be written does not depend on what was written
  before.
\<close>

subsection \<open>Data\<close>

datatype error =
    WebDriverException
  | AttributeError
  | ConnectionError
  | BadZipFile
  | IndexError
  | ParserError
  | OSError
  | ValueError

text \<open>A cell is the text of a CSV field; \<open>None\<close> is the missing value (NaN).\<close>

type_synonym cell = "string option"

text \<open>A pandas DataFrame: the column labels and the rows, in index order.\<close>

record dataframe =
  columns :: "string list"
  rows :: "cell list list"

text \<open>\<^verbatim>\<open>pd.DataFrame()\<close>: no columns, no rows.\<close>

definition pd_DataFrame :: dataframe where
  "pd_DataFrame = \<lparr>columns = [], rows = []\<rparr>"

text \<open>The response of \<^verbatim>\<open>requests.get\<close>.\<close>

record response =
  status_code :: int
  content :: string

record world =
  webdriver_Chrome :: "error option"
    \<comment> \<open>starting the browser, before the \<^verbatim>\<open>try\<close> of \<^verbatim>\<open>get_available_dates\<close>\<close>
  scrape_dates :: "string \<Rightarrow> string \<Rightarrow> error + string list"
    \<comment> \<open>the \<^verbatim>\<open>try\<close> body of \<^verbatim>\<open>get_available_dates\<close> up to its log line: page, parser, regex\<close>
  driver_quit :: "error option"
    \<comment> \<open>\<^verbatim>\<open>driver.quit()\<close> in the \<^verbatim>\<open>finally\<close> block\<close>
  requests_get :: "string \<Rightarrow> error + response"
  ZipFile :: "string \<Rightarrow> error + (string \<times> string) list"
    \<comment> \<open>the members of the archive, name and bytes, in \<^verbatim>\<open>namelist()\<close> order\<close>
  read_csv :: "string \<Rightarrow> error + dataframe"
  os_path_join :: "string \<Rightarrow> string list \<Rightarrow> string"
    \<comment> \<open>\<^verbatim>\<open>os.path.join(a, *p)\<close> of the platform: \<^verbatim>\<open>posixpath\<close> or \<^verbatim>\<open>ntpath\<close>\<close>
  makedirs :: "string \<Rightarrow> error option"
  to_csv :: "string \<Rightarrow> error option"
  astype :: "dataframe list \<Rightarrow> string \<Rightarrow> cell \<Rightarrow> cell"
    \<comment> \<open>a cell of the column with this label, converted to the dtype that
        \<^verbatim>\<open>pd.concat\<close> gives the column when it stacks these frames\<close>

text \<open>
  The log records of \<^verbatim>\<open>LOGGER\<close>, with the values that each f-string formats.
\<close>

datatype level = INFO | WARNING | ERROR

datatype message =
    AvailableDates string nat string
    \<comment> \<open>\<^verbatim>\<open>Ticker {ticker} has {len(dates)} available dates for frequency {frequency}.\<close>\<close>
  | NoDatesAvailable string string
    \<comment> \<open>\<^verbatim>\<open>No dates available for ticker {ticker} and frequency {frequency}.\<close>\<close>
  | FailedDownload string int
    \<comment> \<open>\<^verbatim>\<open>Failed to download data for date {date}. Status code: {response.status_code}\<close>\<close>
  | ExceptionProcessing string error
    \<comment> \<open>\<^verbatim>\<open>Exception occurred while processing date {date}: {e}\<close>\<close>
  | CombinedRows nat
    \<comment> \<open>\<^verbatim>\<open>Combined data contains {len(combined_df)} rows.\<close>\<close>
  | NoDataDownloaded string
    \<comment> \<open>\<^verbatim>\<open>No data was downloaded for ticker {ticker}.\<close>\<close>

text \<open>
  What a call leaves behind: the CSV files written, the log, and the URLs requested
  over HTTP, in order.
\<close>

record state =
  files :: "string \<rightharpoonup> dataframe"
  logged :: "(level \<times> message) list"
  requested :: "string list"

definition LOGGER :: "level \<Rightarrow> message \<Rightarrow> state \<Rightarrow> state" where
  "LOGGER lv m s = s\<lparr>logged := logged s @ [(lv, m)]\<rparr>"

subsection \<open>Library functions\<close>

text \<open>
  \<^verbatim>\<open>posixpath.join\<close>, which is \<^verbatim>\<open>os.path.join\<close> on POSIX: a component that starts with the separator discards
  what came before it; a separator is inserted unless the path so far is empty or
  already ends with one.
\<close>

definition join_component :: "string \<Rightarrow> string \<Rightarrow> string" where
  "join_component path b =
     (if b \<noteq> [] \<and> hd b = CHR ''/'' then b
      else if path = [] \<or> last path = CHR ''/'' then path @ b
      else path @ ''/'' @ b)"

definition posixpath_join :: "string \<Rightarrow> string list \<Rightarrow> string" where
  "posixpath_join a p = foldl join_component a p"

text \<open>
  \<^verbatim>\<open>pd.concat(objs, ignore_index=True)\<close>, for frames whose column labels are unique
  (as \<^verbatim>\<open>read_csv\<close> makes them): no objects is a \<^verbatim>\<open>ValueError\<close>. The columns are
  those of the frames when they all have the same, and otherwise the union of the
  labels in the order of first appearance. Each row is aligned to these columns, a
  missing label giving NaN, and each cell is converted to the dtype that the column
  gets over all the frames (an integer column stacked on a float column, or given a
  NaN, becomes a float column): the conversion is the \<open>astype\<close> of the world.
\<close>

definition union_labels :: "string list list \<Rightarrow> string list" where
  "union_labels css = rev (remdups (rev (concat css)))"

definition reindex :: "string list \<Rightarrow> string list \<Rightarrow> cell list \<Rightarrow> cell list" where
  "reindex old new r =
     map (\<lambda>c. case map_of (zip old r) c of None \<Rightarrow> None | Some v \<Rightarrow> v) new"

definition aligned_rows :: "string list \<Rightarrow> dataframe \<Rightarrow> cell list list" where
  "aligned_rows cols df =
     (if columns df = cols then rows df else map (reindex (columns df) cols) (rows df))"

definition concat_columns :: "dataframe list \<Rightarrow> string list" where
  "concat_columns objs =
     (case objs of
        [] \<Rightarrow> []
      | df # dfs \<Rightarrow>
          if list_all (\<lambda>d. columns d = columns df) dfs then columns df
          else union_labels (map columns objs))"

definition stacked_rows :: "world \<Rightarrow> dataframe list \<Rightarrow> dataframe \<Rightarrow> cell list list" where
  "stacked_rows w objs df =
     map (\<lambda>r. map (\<lambda>(c, v). astype w objs c v) (zip (concat_columns objs) r))
       (aligned_rows (concat_columns objs) df)"

definition pd_concat :: "world \<Rightarrow> dataframe list \<Rightarrow> error + dataframe" where
  "pd_concat w objs =
     (if objs = [] then Inl ValueError
      else Inr \<lparr>columns = concat_columns objs,
                rows = concat (map (stacked_rows w objs) objs)\<rparr>)"

text \<open>
  \<^verbatim>\<open>concurrent.futures.as_completed\<close>: the futures in the order in which they
  finish. The order is the scheduler's; here it is read from a list of choices, each
  picking one of the futures still pending (modulo their number). Once the choices
  are used up the rest finish in submission order.
\<close>

fun as_completed :: "nat list \<Rightarrow> 'a list \<Rightarrow> 'a list" where
  "as_completed cs [] = []"
| "as_completed [] (x # xs) = x # xs"
| "as_completed (c # cs) (x # xs) =
     (let k = c mod length (x # xs)
      in (x # xs) ! k # as_completed cs (take k (x # xs) @ drop (Suc k) (x # xs)))"

subsection \<open>The fetcher\<close>

definition base_url :: string where
  "base_url = ''https://historical-data.kucoin.com''"

definition zip_filename :: "string \<Rightarrow> string \<Rightarrow> string \<Rightarrow> string" where
  "zip_filename ticker frequency date = ticker @ ''-'' @ frequency @ ''-'' @ date @ ''.zip''"

definition download_url :: "string \<Rightarrow> string \<Rightarrow> string \<Rightarrow> string" where
  "download_url ticker frequency date =
     base_url @ ''/data/spot/daily/klines/'' @ ticker @ ''/'' @ frequency @ ''/''
       @ zip_filename ticker frequency date"

definition csv_path :: "world \<Rightarrow> string \<Rightarrow> string \<Rightarrow> string \<Rightarrow> string \<Rightarrow> string" where
  "csv_path w output_dir ticker frequency date =
     os_path_join w (os_path_join w output_dir [ticker, frequency])
       [ticker @ ''-'' @ frequency @ ''-'' @ date @ ''.csv'']"

text \<open>
  \<^verbatim>\<open>get_available_dates\<close>. The browser is started before the \<^verbatim>\<open>try\<close>; the body
  scrapes the listing and logs its length; the \<^verbatim>\<open>finally\<close> block quits the browser
  on every way out of the body, and an exception of its own replaces the result or
  the exception of the body. So the log line can be written and the call still raise.
\<close>

definition get_available_dates ::
  "world \<Rightarrow> string \<Rightarrow> string \<Rightarrow> state \<Rightarrow> (error + string list) \<times> state" where
  "get_available_dates w ticker frequency s =
     (case webdriver_Chrome w of
        Some e \<Rightarrow> (Inl e, s)
      | None \<Rightarrow>
          (case scrape_dates w ticker frequency of
             Inl e \<Rightarrow>
               (case driver_quit w of
                  Some e' \<Rightarrow> (Inl e', s)
                | None \<Rightarrow> (Inl e, s))
           | Inr dates \<Rightarrow>
               (let s1 = LOGGER INFO (AvailableDates ticker (length dates) frequency) s
                in case driver_quit w of
                     Some e' \<Rightarrow> (Inl e', s1)
                   | None \<Rightarrow> (Inr dates, s1))))"

text \<open>
  \<^verbatim>\<open>download_and_process(date)\<close>, with the variables it closes over as parameters.
  The result is \<open>Inl e\<close> when the call raises \<open>e\<close>, \<open>Inr None\<close> when it returns
  \<^verbatim>\<open>None\<close> and \<open>Inr (Some df)\<close> when it returns the frame.
\<close>

definition download_and_process ::
  "world \<Rightarrow> string \<Rightarrow> string \<Rightarrow> bool \<Rightarrow> string \<Rightarrow> string \<Rightarrow> state
     \<Rightarrow> (error + dataframe option) \<times> state" where
  "download_and_process w ticker frequency save_to_disk output_dir date s =
     (let url = download_url ticker frequency date;
          s1 = s\<lparr>requested := requested s @ [url]\<rparr>
      in case requests_get w url of
           Inl e \<Rightarrow> (Inl e, s1)
         | Inr resp \<Rightarrow>
             if status_code resp = 200 then
               (case ZipFile w (content resp) of
                  Inl e \<Rightarrow> (Inl e, s1)
                | Inr members \<Rightarrow>
                    (case members of
                       [] \<Rightarrow> (Inl IndexError, s1)
                     | (csv_filename, csv_file) # _ \<Rightarrow>
                         (case read_csv w csv_file of
                            Inl e \<Rightarrow> (Inl e, s1)
                          | Inr df \<Rightarrow>
                              if save_to_disk then
                                (let output_path = os_path_join w output_dir [ticker, frequency]
                                 in case makedirs w output_path of
                                      Some e \<Rightarrow> (Inl e, s1)
                                    | None \<Rightarrow>
                                        (case to_csv w (csv_path w output_dir ticker frequency date) of
                                           Some e \<Rightarrow> (Inl e, s1)
                                         | None \<Rightarrow>
                                             (Inr (Some df),
                                              s1\<lparr>files := (files s1)
                                                (csv_path w output_dir ticker frequency date \<mapsto> df)\<rparr>)))
                              else (Inr (Some df), s1))))
             else (Inr None, LOGGER ERROR (FailedDownload date (status_code resp)) s1))"

subsection \<open>The coordinator and the combiner\<close>

text \<open>
  A future is the index of its submission with the outcome of its call: the value
  that \<^verbatim>\<open>future.result()\<close> returns, or the exception that it raises again. A date
  submitted twice has two futures.
\<close>

type_synonym future = "nat \<times> (error + dataframe option)"

text \<open>
  Line 192, \<^verbatim>\<open>executor.submit\<close> for each date: the fetches are started in the
  order of the request list, so their effects (the requests sent, the files written,
  the records that the fetches log) are put in that order. How the worker threads
  really interleave is the scheduler's; the properties below compare these effects
  only up to their order.
\<close>

fun submit ::
  "world \<Rightarrow> string \<Rightarrow> string \<Rightarrow> bool \<Rightarrow> string \<Rightarrow> nat \<Rightarrow> string list \<Rightarrow> state
     \<Rightarrow> (future \<times> string) list \<times> state" where
  "submit w ticker frequency save_to_disk output_dir n [] s = ([], s)"
| "submit w ticker frequency save_to_disk output_dir n (date # dates) s =
     (case download_and_process w ticker frequency save_to_disk output_dir date s of
        (r, s') \<Rightarrow>
          (case submit w ticker frequency save_to_disk output_dir (Suc n) dates s' of
             (future_to_date, s'') \<Rightarrow> (((n, r), date) # future_to_date, s'')))"

text \<open>
  The loop over \<^verbatim>\<open>as_completed(future_to_date)\<close>, lines 193 to 201, run by the
  calling thread on the futures in completion order.
\<close>

fun collect :: "(future \<times> string) list \<Rightarrow> dataframe list \<Rightarrow> state \<Rightarrow> dataframe list \<times> state" where
  "collect [] all_data s = (all_data, s)"
| "collect (((n, r), date) # futures) all_data s =
     (case r of
        Inr (Some df) \<Rightarrow> collect futures (all_data @ [df]) s
      | Inr None \<Rightarrow> collect futures all_data s
      | Inl e \<Rightarrow> collect futures all_data (LOGGER ERROR (ExceptionProcessing date e) s))"

text \<open>The request list: lines 155 to 159.\<close>

definition effective_dates :: "string list option \<Rightarrow> string list \<Rightarrow> string list" where
  "effective_dates dates available_dates =
     (case dates of
        None \<Rightarrow> available_dates
      | Some ds \<Rightarrow> filter (\<lambda>date. date \<in> set available_dates) ds)"

text \<open>
  \<^verbatim>\<open>get_combined_data\<close>. The extra argument \<open>sched\<close> is the scheduler's choices for
  \<open>as_completed\<close>.
\<close>

definition get_combined_data ::
  "world \<Rightarrow> nat list \<Rightarrow> string \<Rightarrow> string \<Rightarrow> string list option \<Rightarrow> bool \<Rightarrow> string \<Rightarrow> state
     \<Rightarrow> (error + dataframe) \<times> state" where
  "get_combined_data w sched ticker frequency dates save_to_disk output_dir s =
     (case get_available_dates w ticker frequency s of
        (Inl e, s0) \<Rightarrow> (Inl e, s0)
      | (Inr available_dates, s0) \<Rightarrow>
          (let dates' = effective_dates dates available_dates
           in if dates' = [] then
                (Inr pd_DataFrame, LOGGER WARNING (NoDatesAvailable ticker frequency) s0)
              else
                (case submit w ticker frequency save_to_disk output_dir 0 dates' s0 of
                   (future_to_date, s1) \<Rightarrow>
                     (case collect (as_completed sched future_to_date) [] s1 of
                        (all_data, s2) \<Rightarrow>
                          if all_data \<noteq> [] then
                            (case pd_concat w all_data of
                               Inl e \<Rightarrow> (Inl e, s2)
                             | Inr combined_df \<Rightarrow>
                                 (Inr combined_df,
                                  LOGGER INFO (CombinedRows (length (rows combined_df))) s2))
                          else
                            (Inr pd_DataFrame, LOGGER WARNING (NoDataDownloaded ticker) s2)))))"

subsection \<open>Observations\<close>

text \<open>
  What is observed of a run. The value of a fetch does not depend on the state it
  starts in, so \<open>fetch_result\<close> reads it off a run from the empty state; the log
  records of a fetch likewise.
\<close>

definition empty_state :: state where
  "empty_state = \<lparr>files = Map.empty, logged = [], requested = []\<rparr>"

definition fetch_result ::
  "world \<Rightarrow> string \<Rightarrow> string \<Rightarrow> bool \<Rightarrow> string \<Rightarrow> string \<Rightarrow> error + dataframe option" where
  "fetch_result w ticker frequency save_to_disk output_dir date =
     fst (download_and_process w ticker frequency save_to_disk output_dir date empty_state)"

definition fetch_log ::
  "world \<Rightarrow> string \<Rightarrow> string \<Rightarrow> bool \<Rightarrow> string \<Rightarrow> string \<Rightarrow> (level \<times> message) list" where
  "fetch_log w ticker frequency save_to_disk output_dir date =
     logged (snd (download_and_process w ticker frequency save_to_disk output_dir date empty_state))"

text \<open>The records that the loop logs for the dates whose fetch raised.\<close>

definition raised_records ::
  "world \<Rightarrow> string \<Rightarrow> string \<Rightarrow> bool \<Rightarrow> string \<Rightarrow> string list \<Rightarrow> (level \<times> message) list" where
  "raised_records w ticker frequency save_to_disk output_dir ds =
     concat (map (\<lambda>date.
       case fetch_result w ticker frequency save_to_disk output_dir date of
         Inl e \<Rightarrow> [(ERROR, ExceptionProcessing date e)]
       | Inr r \<Rightarrow> []) ds)"

text \<open>The dates of a request list in the order in which their futures complete.\<close>

definition completion_order :: "nat list \<Rightarrow> string list \<Rightarrow> string list" where
  "completion_order sched ds = map snd (as_completed sched (enumerate 0 ds))"

text \<open>The date that an error record of the log names, and the dates of all of them.\<close>

fun reported_date :: "level \<times> message \<Rightarrow> string option" where
  "reported_date (ERROR, FailedDownload date code) = Some date"
| "reported_date (ERROR, ExceptionProcessing date e) = Some date"
| "reported_date other = None"

definition failed_keys :: "(level \<times> message) list \<Rightarrow> string list" where
  "failed_keys lg = List.map_filter reported_date lg"

text \<open>
  A fetch succeeds when it returns a frame. The frames of a list of dates, and the
  dates whose fetch returned \<^verbatim>\<open>None\<close> or raised.
\<close>

fun is_success :: "error + dataframe option \<Rightarrow> bool" where
  "is_success (Inr (Some df)) = True"
| "is_success other = False"

fun table_of :: "error + dataframe option \<Rightarrow> dataframe option" where
  "table_of (Inr r) = r"
| "table_of (Inl e) = None"

definition success_tables ::
  "world \<Rightarrow> string \<Rightarrow> string \<Rightarrow> bool \<Rightarrow> string \<Rightarrow> string list \<Rightarrow> dataframe list" where
  "success_tables w ticker frequency save_to_disk output_dir ds =
     List.map_filter (\<lambda>date. table_of (fetch_result w ticker frequency save_to_disk output_dir date)) ds"

definition failed_dates ::
  "world \<Rightarrow> string \<Rightarrow> string \<Rightarrow> bool \<Rightarrow> string \<Rightarrow> string list \<Rightarrow> string list" where
  "failed_dates w ticker frequency save_to_disk output_dir ds =
     filter (\<lambda>date. \<not> is_success (fetch_result w ticker frequency save_to_disk output_dir date)) ds"

definition succeeded_dates ::
  "world \<Rightarrow> string \<Rightarrow> string \<Rightarrow> bool \<Rightarrow> string \<Rightarrow> string list \<Rightarrow> string list" where
  "succeeded_dates w ticker frequency save_to_disk output_dir ds =
     filter (\<lambda>date. is_success (fetch_result w ticker frequency save_to_disk output_dir date)) ds"

subsection \<open>A server for the examples\<close>

text \<open>
  Five dates are listed. The archives of the first two hold frames of 10 and 15 rows
  with the same columns and dtypes, so that stacking them converts nothing; the
  request for the third fails in transport; the fourth is answered with status 404;
  the fifth is answered with bytes that are no zip archive. The platform is POSIX, and
  the directories and the files can be written.
\<close>

definition frame10 :: dataframe where
  "frame10 = \<lparr>columns = [''time'', ''close''], rows = replicate 10 [Some ''1719792000'', Some ''62000.1'']\<rparr>"

definition frame15 :: dataframe where
  "frame15 = \<lparr>columns = [''time'', ''close''], rows = replicate 15 [Some ''1719878400'', Some ''61000.5'']\<rparr>"

definition demo_world :: world where
  "demo_world =
     \<lparr>webdriver_Chrome = None,
      scrape_dates = (\<lambda>ticker frequency.
        Inr [''2024-07-01'', ''2024-07-02'', ''2024-07-03'', ''2024-07-04'', ''2024-07-05'']),
      driver_quit = None,
      requests_get = (\<lambda>url.
        if url = download_url ''BTCUSDT'' ''1d'' ''2024-07-01''
          then Inr \<lparr>status_code = 200, content = ''zip-01''\<rparr>
        else if url = download_url ''BTCUSDT'' ''1d'' ''2024-07-02''
          then Inr \<lparr>status_code = 200, content = ''zip-02''\<rparr>
        else if url = download_url ''BTCUSDT'' ''1d'' ''2024-07-03''
          then Inl ConnectionError
        else if url = download_url ''BTCUSDT'' ''1d'' ''2024-07-05''
          then Inr \<lparr>status_code = 200, content = ''not a zip''\<rparr>
        else Inr \<lparr>status_code = 404, content = []\<rparr>),
      ZipFile = (\<lambda>bytes.
        if bytes = ''zip-01'' then Inr [(''BTCUSDT-1d-2024-07-01.csv'', ''csv-01'')]
        else if bytes = ''zip-02'' then Inr [(''BTCUSDT-1d-2024-07-02.csv'', ''csv-02'')]
        else Inl BadZipFile),
      read_csv = (\<lambda>csv_file.
        if csv_file = ''csv-01'' then Inr frame10
        else if csv_file = ''csv-02'' then Inr frame15
        else Inl ParserError),
      os_path_join = posixpath_join,
      makedirs = (\<lambda>path. None),
      to_csv = (\<lambda>path. None),
      astype = (\<lambda>objs label v. v)\<rparr>"

text \<open>A server that answers every request with the given status.\<close>

definition status_world :: "int \<Rightarrow> world" where
  "status_world code =
     demo_world\<lparr>requests_get := \<lambda>url. Inr \<lparr>status_code = code, content = []\<rparr>\<rparr>"

text \<open>The example server on a file system where no CSV file can be written.\<close>

definition read_only_world :: world where
  "read_only_world = demo_world\<lparr>to_csv := \<lambda>path. Some OSError\<rparr>"



text \<open>
  The example server with a pandas that converts: stacking a column of integers on a
  column of floats makes the column float, and the integer below loses its last digit.
\<close>

definition ints_frame :: dataframe where
  "ints_frame = \<lparr>columns = [''volume''], rows = [[Some ''9007199254740993'']]\<rparr>"

definition floats_frame :: dataframe where
  "floats_frame = \<lparr>columns = [''volume''], rows = [[Some ''0.5'']]\<rparr>"

definition upcast_world :: world where
  "upcast_world =
     demo_world\<lparr>astype := \<lambda>objs label v.
       if v = Some ''9007199254740993'' then Some ''9007199254740992.0'' else v\<rparr>"

section \<open>Properties\<close>

subsection \<open>One fetch\<close>

lemma fst_download_and_process:
  "fst (download_and_process w t f sv od d s) = fetch_result w t f sv od d"
  by (simp add: fetch_result_def download_and_process_def Let_def
      split: sum.splits list.splits option.splits prod.splits)

lemma requested_download_and_process:
  "requested (snd (download_and_process w t f sv od d s)) = requested s @ [download_url t f d]"
  by (simp add: download_and_process_def Let_def LOGGER_def
      split: sum.splits list.splits option.splits prod.splits)

lemma logged_download_and_process:
  "logged (snd (download_and_process w t f sv od d s)) = logged s @ fetch_log w t f sv od d"
  by (simp add: fetch_log_def download_and_process_def Let_def LOGGER_def empty_state_def
      split: sum.splits list.splits option.splits prod.splits)

lemma fetch_log_cases:
  "fetch_log w t f sv od d =
     (case requests_get w (download_url t f d) of
        Inl e \<Rightarrow> []
      | Inr resp \<Rightarrow>
          if status_code resp = 200 then []
          else [(ERROR, FailedDownload d (status_code resp))])"
  by (simp add: fetch_log_def download_and_process_def Let_def LOGGER_def empty_state_def
      split: sum.splits list.splits option.splits prod.splits)

lemma fetch_result_None:
  "fetch_result w t f sv od d = Inr None \<longleftrightarrow>
     (\<exists>resp. requests_get w (download_url t f d) = Inr resp \<and> status_code resp \<noteq> 200)"
  by (auto simp: fetch_result_def download_and_process_def Let_def
      split: sum.splits list.splits option.splits prod.splits)

lemma failed_keys_append: "failed_keys (a @ b) = failed_keys a @ failed_keys b"
  by (simp add: failed_keys_def List.map_filter_def)

lemma failed_keys_fetch_log:
  "failed_keys (fetch_log w t f sv od d) = (if fetch_result w t f sv od d = Inr None then [d] else [])"
proof (cases "requests_get w (download_url t f d)")
  case (Inl e)
  then have "fetch_result w t f sv od d \<noteq> Inr None"
    by (simp add: fetch_result_None)
  then show ?thesis using Inl
    by (simp add: fetch_log_cases failed_keys_def List.map_filter_def)
next
  case (Inr resp)
  then have "fetch_result w t f sv od d = Inr None \<longleftrightarrow> status_code resp \<noteq> 200"
    by (simp add: fetch_result_None)
  then show ?thesis using Inr
    by (simp add: fetch_log_cases failed_keys_def List.map_filter_def)
qed

subsection \<open>The order of completion\<close>

lemma as_completed_mset: "mset (as_completed cs xs) = mset xs"
proof (induction cs xs rule: as_completed.induct)
  case (3 c cs x xs)
  define ys where "ys = x # xs"
  define k where "k = c mod length ys"
  have k: "k < length ys" by (simp add: k_def ys_def)
  have ih: "mset (as_completed cs (take k ys @ drop (Suc k) ys)) = mset (take k ys @ drop (Suc k) ys)"
    using "3.IH" [of k] by (simp only: k_def ys_def)
  have split: "ys = take k ys @ ys ! k # drop (Suc k) ys"
    using k by (rule id_take_nth_drop)
  have "mset ys = mset (take k ys @ ys ! k # drop (Suc k) ys)"
    using split by simp
  also have "\<dots> = mset (ys ! k # as_completed cs (take k ys @ drop (Suc k) ys))"
    using ih by simp
  finally have "mset (ys ! k # as_completed cs (take k ys @ drop (Suc k) ys)) = mset ys"
    by simp
  moreover have "as_completed (c # cs) (x # xs) = ys ! k # as_completed cs (take k ys @ drop (Suc k) ys)"
    by (simp only: as_completed.simps Let_def k_def ys_def)
  ultimately show ?case by (simp only: ys_def)
qed simp_all

lemma as_completed_map: "as_completed cs (map g xs) = map g (as_completed cs xs)"
proof (induction cs xs rule: as_completed.induct)
  case (3 c cs x xs)
  define ys where "ys = x # xs"
  define k where "k = c mod length ys"
  have k: "k < length ys" by (simp add: k_def ys_def)
  have ih: "as_completed cs (map g (take k ys @ drop (Suc k) ys))
      = map g (as_completed cs (take k ys @ drop (Suc k) ys))"
    using "3.IH" [of k] by (simp only: k_def ys_def)
  have l: "as_completed (c # cs) (map g ys)
      = map g ys ! k # as_completed cs (take k (map g ys) @ drop (Suc k) (map g ys))"
    by (simp add: ys_def k_def Let_def)
  have r: "as_completed (c # cs) ys = ys ! k # as_completed cs (take k ys @ drop (Suc k) ys)"
    by (simp only: as_completed.simps Let_def k_def ys_def)
  have "take k (map g ys) @ drop (Suc k) (map g ys) = map g (take k ys @ drop (Suc k) ys)"
    by (simp add: take_map drop_map)
  then have "as_completed (c # cs) (map g ys) = map g (as_completed (c # cs) ys)"
    using l r ih k by simp
  then show ?case by (simp only: ys_def)
qed simp_all

lemma completion_order_mset: "mset (completion_order sched ds) = mset ds"
proof -
  have "mset (completion_order sched ds) = image_mset snd (mset (as_completed sched (enumerate 0 ds)))"
    by (simp add: completion_order_def)
  also have "\<dots> = image_mset snd (mset (enumerate 0 ds))"
    by (simp only: as_completed_mset)
  also have "\<dots> = mset (map snd (enumerate 0 ds))" by (simp only: mset_map)
  finally show ?thesis by (simp add: enumerate_eq_zip)
qed

lemma completion_order_set: "set (completion_order sched ds) = set ds"
  using completion_order_mset [of sched ds] by (metis set_mset_mset)

lemma completion_order_length: "length (completion_order sched ds) = length ds"
  using completion_order_mset [of sched ds] by (metis size_mset)

lemma completion_order_count: "count_list (completion_order sched ds) d = count_list ds d"
  using completion_order_mset [of sched ds] by (metis count_mset)

lemma completion_order_Nil: "completion_order sched [] = []"
  by (simp add: completion_order_def)

subsection \<open>Submitting and collecting\<close>

lemma submit_futures:
  "fst (submit w t f sv od n ds s) =
     map (\<lambda>p. ((fst p, fetch_result w t f sv od (snd p)), snd p)) (enumerate n ds)"
proof (induction ds arbitrary: n s)
  case Nil
  show ?case by simp
next
  case (Cons d ds)
  obtain r s' where step: "download_and_process w t f sv od d s = (r, s')"
    by (cases "download_and_process w t f sv od d s")
  have r: "r = fetch_result w t f sv od d"
    using fst_download_and_process [of w t f sv od d s] step by simp
  show ?case using Cons.IH [of "Suc n" s'] step r
    by (cases "submit w t f sv od (Suc n) ds s'") simp
qed

lemma submit_requested:
  "requested (snd (submit w t f sv od n ds s)) = requested s @ map (download_url t f) ds"
proof (induction ds arbitrary: n s)
  case Nil
  show ?case by simp
next
  case (Cons d ds)
  obtain r s' where step: "download_and_process w t f sv od d s = (r, s')"
    by (cases "download_and_process w t f sv od d s")
  have "requested s' = requested s @ [download_url t f d]"
    using requested_download_and_process [of w t f sv od d s] step by simp
  then show ?case using Cons.IH [of "Suc n" s'] step
    by (cases "submit w t f sv od (Suc n) ds s'") simp
qed

lemma submit_logged:
  "logged (snd (submit w t f sv od n ds s)) = logged s @ concat (map (fetch_log w t f sv od) ds)"
proof (induction ds arbitrary: n s)
  case Nil
  show ?case by simp
next
  case (Cons d ds)
  obtain r s' where step: "download_and_process w t f sv od d s = (r, s')"
    by (cases "download_and_process w t f sv od d s")
  have "logged s' = logged s @ fetch_log w t f sv od d"
    using logged_download_and_process [of w t f sv od d s] step by simp
  then show ?case using Cons.IH [of "Suc n" s'] step
    by (cases "submit w t f sv od (Suc n) ds s'") simp
qed

lemma collect_all_data:
  "fst (collect futs acc s) = acc @ List.map_filter (\<lambda>p. table_of (snd (fst p))) futs"
proof (induction futs acc s rule: collect.induct)
  case (1 all_data s)
  show ?case by (simp add: List.map_filter_def)
next
  case (2 n r date futures all_data s)
  show ?case
  proof (cases r)
    case (Inl e)
    then show ?thesis using 2 by (simp add: List.map_filter_def)
  next
    case (Inr v)
    then show ?thesis using 2 by (cases v) (simp_all add: List.map_filter_def)
  qed
qed

lemma collect_state:
  "snd (collect futs acc s) =
     s\<lparr>logged := logged s @ concat (map (\<lambda>p.
          case snd (fst p) of
            Inl e \<Rightarrow> [(ERROR, ExceptionProcessing (snd p) e)]
          | Inr r \<Rightarrow> []) futs)\<rparr>"
proof (induction futs acc s rule: collect.induct)
  case (1 all_data s)
  show ?case by simp
next
  case (2 n r date futures all_data s)
  show ?case
  proof (cases r)
    case (Inl e)
    then show ?thesis using 2 by (simp add: LOGGER_def)
  next
    case (Inr v)
    then show ?thesis using 2 by (cases v) simp_all
  qed
qed

lemma map_filter_map: "List.map_filter h (map g xs) = List.map_filter (\<lambda>x. h (g x)) xs"
  by (induction xs) (simp_all add: List.map_filter_def)

lemma run_futures:
  assumes "submit w t f sv od 0 ds s0 = (futs, s1)"
    and "collect (as_completed sched futs) [] s1 = (all_data, s2)"
  shows "all_data = success_tables w t f sv od (completion_order sched ds)"
    and "logged s2 = logged s0 @ concat (map (fetch_log w t f sv od) ds)
           @ raised_records w t f sv od (completion_order sched ds)"
    and "requested s2 = requested s0 @ map (download_url t f) ds"
    and "files s2 = files s1"
proof -
  let ?g = "\<lambda>p. ((fst p, fetch_result w t f sv od (snd p)), snd p)"
  have futs: "futs = map ?g (enumerate 0 ds)"
    using submit_futures [of w t f sv od 0 ds s0] assms(1) by simp
  have ord: "as_completed sched futs = map ?g (as_completed sched (enumerate 0 ds))"
    unfolding futs by (rule as_completed_map)
  have "all_data = List.map_filter (\<lambda>p. table_of (snd (fst p))) (as_completed sched futs)"
    using collect_all_data [of "as_completed sched futs" "[]" s1] assms(2) by simp
  then show "all_data = success_tables w t f sv od (completion_order sched ds)"
    unfolding ord
    by (simp add: success_tables_def completion_order_def map_filter_map)
  have s2: "s2 = s1\<lparr>logged := logged s1 @ concat (map (\<lambda>p.
          case snd (fst p) of
            Inl e \<Rightarrow> [(ERROR, ExceptionProcessing (snd p) e)]
          | Inr r \<Rightarrow> []) (as_completed sched futs))\<rparr>"
    using collect_state [of "as_completed sched futs" "[]" s1] assms(2) by simp
  have s1l: "logged s1 = logged s0 @ concat (map (fetch_log w t f sv od) ds)"
    using submit_logged [of w t f sv od 0 ds s0] assms(1) by simp
  have s1r: "requested s1 = requested s0 @ map (download_url t f) ds"
    using submit_requested [of w t f sv od 0 ds s0] assms(1) by simp
  show "logged s2 = logged s0 @ concat (map (fetch_log w t f sv od) ds)
           @ raised_records w t f sv od (completion_order sched ds)"
    unfolding s2 ord
    by (simp add: s1l raised_records_def completion_order_def comp_def cong: sum.case_cong)
  show "requested s2 = requested s0 @ map (download_url t f) ds"
    unfolding s2 by (simp add: s1r)
  show "files s2 = files s1"
    unfolding s2 by simp
qed

subsection \<open>Frames and failures of a request list\<close>

lemma tables_and_failures:
  "length (success_tables w t f sv od ds) + length (failed_dates w t f sv od ds) = length ds"
proof (induction ds)
  case Nil
  show ?case by (simp add: success_tables_def failed_dates_def List.map_filter_def)
next
  case (Cons d ds)
  show ?case
  proof (cases "fetch_result w t f sv od d")
    case (Inl e)
    then show ?thesis using Cons
      by (simp add: success_tables_def failed_dates_def List.map_filter_def)
  next
    case (Inr v)
    then show ?thesis using Cons
      by (cases v) (simp_all add: success_tables_def failed_dates_def List.map_filter_def)
  qed
qed

lemma success_tables_succeeded:
  "success_tables w t f sv od (succeeded_dates w t f sv od ds) = success_tables w t f sv od ds"
proof (induction ds)
  case Nil
  show ?case by (simp add: success_tables_def succeeded_dates_def)
next
  case (Cons d ds)
  show ?case
  proof (cases "fetch_result w t f sv od d")
    case (Inl e)
    then show ?thesis using Cons
      by (simp add: success_tables_def succeeded_dates_def List.map_filter_def)
  next
    case (Inr v)
    then show ?thesis using Cons
      by (cases v) (simp_all add: success_tables_def succeeded_dates_def List.map_filter_def)
  qed
qed

lemma failed_keys_fetch_logs:
  "failed_keys (concat (map (fetch_log w t f sv od) ds))
     = filter (\<lambda>d. fetch_result w t f sv od d = Inr None) ds"
  by (induction ds) (simp_all add: failed_keys_append failed_keys_fetch_log,
      simp add: failed_keys_def List.map_filter_def)

lemma failed_keys_raised_records:
  "failed_keys (raised_records w t f sv od ds) = filter (\<lambda>d. isl (fetch_result w t f sv od d)) ds"
proof (induction ds)
  case Nil
  show ?case by (simp add: raised_records_def failed_keys_def List.map_filter_def)
next
  case (Cons d ds)
  have "raised_records w t f sv od (d # ds)
      = (case fetch_result w t f sv od d of
           Inl e \<Rightarrow> [(ERROR, ExceptionProcessing d e)] | Inr r \<Rightarrow> [])
        @ raised_records w t f sv od ds"
    by (simp add: raised_records_def)
  then show ?case using Cons
    by (cases "fetch_result w t f sv od d")
      (simp_all add: failed_keys_append, simp_all add: failed_keys_def List.map_filter_def)
qed

lemma failed_dates_split:
  "mset (filter (\<lambda>d. fetch_result w t f sv od d = Inr None) ds)
     + mset (filter (\<lambda>d. isl (fetch_result w t f sv od d)) ds)
   = mset (failed_dates w t f sv od ds)"
proof (induction ds)
  case Nil
  show ?case by (simp add: failed_dates_def)
next
  case (Cons d ds)
  show ?case
  proof (cases "fetch_result w t f sv od d")
    case (Inl e)
    then show ?thesis using Cons by (simp add: failed_dates_def)
  next
    case (Inr v)
    then show ?thesis using Cons by (cases v) (simp_all add: failed_dates_def)
  qed
qed

lemma filter_completion_order:
  "mset (filter P (completion_order sched ds)) = mset (filter P ds)"
  by (simp only: mset_filter completion_order_mset)

subsection \<open>Stacking frames\<close>

lemma pd_concat_rows:
  "pd_concat w objs = Inr df \<Longrightarrow> rows df = concat (map (stacked_rows w objs) objs)"
  by (auto simp: pd_concat_def split: if_splits)

lemma pd_concat_columns:
  "pd_concat w objs = Inr df \<Longrightarrow> columns df = concat_columns objs"
  by (auto simp: pd_concat_def split: if_splits)

lemma length_stacked_rows: "length (stacked_rows w objs df) = length (rows df)"
  by (simp add: stacked_rows_def aligned_rows_def)

lemma length_concat_stacked:
  "length (concat (map (stacked_rows w objs) dfs)) = sum_list (map (\<lambda>t. length (rows t)) dfs)"
  by (induction dfs) (simp_all add: length_stacked_rows)

lemma pd_concat_nonempty: "objs \<noteq> [] \<Longrightarrow> \<exists>df. pd_concat w objs = Inr df"
  by (simp add: pd_concat_def)

subsection \<open>The listing\<close>

lemma listing_obtained:
  assumes "fst (get_available_dates w t f s) = Inr avail"
  shows "get_available_dates w t f s
     = (Inr avail, LOGGER INFO (AvailableDates t (length avail) f) s)"
  using assms
  by (auto simp: get_available_dates_def Let_def split: option.splits sum.splits)



subsection \<open>The whole call\<close>

lemma get_combined_data_parts:
  assumes "fst (get_available_dates w t f s) = Inr avail"
  shows "fst (get_combined_data w sched t f dates sv od s) =
           (if success_tables w t f sv od
                 (completion_order sched (effective_dates dates avail)) = []
            then Inr pd_DataFrame
            else pd_concat w (success_tables w t f sv od
                 (completion_order sched (effective_dates dates avail))))"
    and "\<exists>final. fst final \<noteq> ERROR
           \<and> logged (snd (get_combined_data w sched t f dates sv od s)) =
               logged s @ [(INFO, AvailableDates t (length avail) f)]
                 @ concat (map (fetch_log w t f sv od) (effective_dates dates avail))
                 @ raised_records w t f sv od
                     (completion_order sched (effective_dates dates avail))
                 @ [final]"
    and "requested (snd (get_combined_data w sched t f dates sv od s)) =
           requested s @ map (download_url t f) (effective_dates dates avail)"
proof -
  let ?ds = "effective_dates dates avail"
  let ?s0 = "LOGGER INFO (AvailableDates t (length avail) f) s"
  let ?tabs = "success_tables w t f sv od (completion_order sched ?ds)"
  have av: "get_available_dates w t f s = (Inr avail, ?s0)"
    using assms by (rule listing_obtained)
  obtain futs s1 where sub: "submit w t f sv od 0 ?ds ?s0 = (futs, s1)"
    by (cases "submit w t f sv od 0 ?ds ?s0")
  obtain all_data s2 where col: "collect (as_completed sched futs) [] s1 = (all_data, s2)"
    by (cases "collect (as_completed sched futs) [] s1")
  note run = run_futures [OF sub col]
  have tabs: "all_data = ?tabs" by (rule run(1))
  have lg: "logged s2 = logged s @ [(INFO, AvailableDates t (length avail) f)]
      @ concat (map (fetch_log w t f sv od) ?ds)
      @ raised_records w t f sv od (completion_order sched ?ds)"
    using run(2) by (simp add: LOGGER_def)
  have rq: "requested s2 = requested s @ map (download_url t f) ?ds"
    using run(3) by (simp add: LOGGER_def)
  show "fst (get_combined_data w sched t f dates sv od s) =
      (if ?tabs = [] then Inr pd_DataFrame else pd_concat w ?tabs)"
  proof (cases "?ds = []")
    case True
    then show ?thesis using av
      by (simp add: get_combined_data_def success_tables_def completion_order_Nil
          List.map_filter_def)
  next
    case False
    then show ?thesis using av sub col tabs
      by (cases "all_data = []") (auto simp: get_combined_data_def pd_concat_def)
  qed
  show "\<exists>final. fst final \<noteq> ERROR
      \<and> logged (snd (get_combined_data w sched t f dates sv od s)) =
          logged s @ [(INFO, AvailableDates t (length avail) f)]
            @ concat (map (fetch_log w t f sv od) ?ds)
            @ raised_records w t f sv od (completion_order sched ?ds) @ [final]"
  proof (cases "?ds = []")
    case True
    then have "logged (snd (get_combined_data w sched t f dates sv od s)) =
          logged s @ [(INFO, AvailableDates t (length avail) f)]
            @ concat (map (fetch_log w t f sv od) ?ds)
            @ raised_records w t f sv od (completion_order sched ?ds)
            @ [(WARNING, NoDatesAvailable t f)]"
      using av
      by (simp add: get_combined_data_def LOGGER_def completion_order_Nil raised_records_def)
    then show ?thesis by (intro exI [of _ "(WARNING, NoDatesAvailable t f)"]) simp
  next
    case False
    show ?thesis
    proof (cases "all_data = []")
      case True
      then have "logged (snd (get_combined_data w sched t f dates sv od s)) =
          logged s2 @ [(WARNING, NoDataDownloaded t)]"
        using av sub col False by (simp add: get_combined_data_def LOGGER_def)
      then show ?thesis
        unfolding lg by (intro exI [of _ "(WARNING, NoDataDownloaded t)"]) simp
    next
      case nonempty: False
      then obtain df where df: "pd_concat w all_data = Inr df"
        using pd_concat_nonempty by blast
      then have "logged (snd (get_combined_data w sched t f dates sv od s)) =
          logged s2 @ [(INFO, CombinedRows (length (rows df)))]"
        using av sub col False nonempty by (simp add: get_combined_data_def LOGGER_def)
      then show ?thesis
        unfolding lg by (intro exI [of _ "(INFO, CombinedRows (length (rows df)))"]) simp
    qed
  qed
  show "requested (snd (get_combined_data w sched t f dates sv od s)) =
      requested s @ map (download_url t f) ?ds"
  proof (cases "?ds = []")
    case True
    then show ?thesis using av by (simp add: get_combined_data_def LOGGER_def)
  next
    case False
    then show ?thesis using av sub col rq
      by (cases "all_data = []") (auto simp: get_combined_data_def pd_concat_def LOGGER_def)
  qed
qed

lemma get_combined_data_failed_keys:
  assumes "fst (get_available_dates w t f s) = Inr avail"
  shows "mset (failed_keys (logged (snd (get_combined_data w sched t f dates sv od s))))
     = mset (failed_keys (logged s))
       + mset (failed_dates w t f sv od (effective_dates dates avail))"
proof -
  let ?ds = "effective_dates dates avail"
  obtain final where fin: "fst final \<noteq> ERROR"
    and lg: "logged (snd (get_combined_data w sched t f dates sv od s)) =
        logged s @ [(INFO, AvailableDates t (length avail) f)]
          @ concat (map (fetch_log w t f sv od) ?ds)
          @ raised_records w t f sv od (completion_order sched ?ds) @ [final]"
    using get_combined_data_parts(2) [OF assms] by blast
  have none: "failed_keys [final] = []"
    using fin by (cases final rule: reported_date.cases)
      (simp_all add: failed_keys_def List.map_filter_def)
  have info: "failed_keys [(INFO, AvailableDates t (length avail) f)] = []"
    by (simp add: failed_keys_def List.map_filter_def)
  have "failed_keys (logged (snd (get_combined_data w sched t f dates sv od s)))
      = failed_keys (logged s)
        @ filter (\<lambda>d. fetch_result w t f sv od d = Inr None) ?ds
        @ filter (\<lambda>d. isl (fetch_result w t f sv od d)) (completion_order sched ?ds)"
    unfolding lg
    by (simp only: failed_keys_append none info failed_keys_fetch_logs
        failed_keys_raised_records append_Nil append_Nil2)
  then have "mset (failed_keys (logged (snd (get_combined_data w sched t f dates sv od s))))
      = mset (failed_keys (logged s))
        + (mset (filter (\<lambda>d. fetch_result w t f sv od d = Inr None) ?ds)
        + mset (filter (\<lambda>d. isl (fetch_result w t f sv od d)) ?ds))"
    by (simp add: completion_order_mset)
  then show ?thesis by (simp only: failed_dates_split)
qed

lemma get_combined_data_returns:
  assumes "fst (get_available_dates w t f s) = Inr avail"
  shows "\<exists>df. fst (get_combined_data w sched t f dates sv od s) = Inr df
     \<and> columns df = concat_columns (success_tables w t f sv od
          (completion_order sched (effective_dates dates avail)))
     \<and> rows df = concat (map
          (stacked_rows w (success_tables w t f sv od
             (completion_order sched (effective_dates dates avail))))
          (success_tables w t f sv od
             (completion_order sched (effective_dates dates avail))))
     \<and> length (rows df) = sum_list (map (\<lambda>t. length (rows t))
          (success_tables w t f sv od
             (completion_order sched (effective_dates dates avail))))"
proof -
  define tabs where "tabs = success_tables w t f sv od
      (completion_order sched (effective_dates dates avail))"
  have val: "fst (get_combined_data w sched t f dates sv od s) =
      (if tabs = [] then Inr pd_DataFrame else pd_concat w tabs)"
    using get_combined_data_parts(1) [OF assms, where sched = sched and dates = dates
        and sv = sv and od = od]
    unfolding tabs_def [symmetric] .
  obtain df where df: "fst (get_combined_data w sched t f dates sv od s) = Inr df"
    and cs: "columns df = concat_columns tabs"
    and rs: "rows df = concat (map (stacked_rows w tabs) tabs)"
  proof (cases "tabs = []")
    case True
    then show ?thesis using val that [of pd_DataFrame]
      by (simp add: pd_DataFrame_def concat_columns_def)
  next
    case False
    then obtain df where "pd_concat w tabs = Inr df"
      using pd_concat_nonempty by blast
    then show ?thesis
      using val False that [of df] pd_concat_rows [of w tabs df] pd_concat_columns [of w tabs df]
      by simp
  qed
  have "length (concat (map (stacked_rows w tabs) tabs))
      = sum_list (map (\<lambda>t. length (rows t)) tabs)"
    by (rule length_concat_stacked)
  then have "length (rows df) = sum_list (map (\<lambda>t. length (rows t)) tabs)"
    by (simp only: rs)
  then show ?thesis
    unfolding tabs_def [symmetric] using df cs rs by (intro exI conjI)
qed

subsection \<open>The example server, evaluated\<close>

lemma demo_listing:
  "fst (get_available_dates demo_world ''BTCUSDT'' ''1d'' s) =
     Inr [''2024-07-01'', ''2024-07-02'', ''2024-07-03'', ''2024-07-04'', ''2024-07-05'']"
  by (simp add: get_available_dates_def demo_world_def Let_def)

lemma demo_fetch_01:
  "fetch_result demo_world ''BTCUSDT'' ''1d'' sv od ''2024-07-01'' = Inr (Some frame10)"
  by (simp add: fetch_result_def download_and_process_def demo_world_def download_url_def Let_def
      zip_filename_def base_url_def)

lemma demo_fetch_02:
  "fetch_result demo_world ''BTCUSDT'' ''1d'' sv od ''2024-07-02'' = Inr (Some frame15)"
  by (simp add: fetch_result_def download_and_process_def demo_world_def download_url_def Let_def
      zip_filename_def base_url_def)

lemma demo_fetch_03:
  "fetch_result demo_world ''BTCUSDT'' ''1d'' sv od ''2024-07-03'' = Inl ConnectionError"
  by (simp add: fetch_result_def download_and_process_def demo_world_def download_url_def Let_def
      zip_filename_def base_url_def)

lemma demo_fetch_04:
  "fetch_result demo_world ''BTCUSDT'' ''1d'' sv od ''2024-07-04'' = Inr None"
  by (simp add: fetch_result_def download_and_process_def demo_world_def download_url_def Let_def
      zip_filename_def base_url_def)

lemma demo_fetch_05:
  "fetch_result demo_world ''BTCUSDT'' ''1d'' sv od ''2024-07-05'' = Inl BadZipFile"
  by (simp add: fetch_result_def download_and_process_def demo_world_def download_url_def Let_def
      zip_filename_def base_url_def)

lemmas demo_fetch = demo_fetch_01 demo_fetch_02 demo_fetch_03 demo_fetch_04 demo_fetch_05

lemma demo_get_04:
  "requests_get demo_world (download_url ''BTCUSDT'' ''1d'' ''2024-07-04'')
     = Inr \<lparr>status_code = 404, content = []\<rparr>"
  by (simp add: demo_world_def download_url_def zip_filename_def base_url_def)

lemma demo_completion_3:
  "completion_order [1] [''2024-07-01'', ''2024-07-02'', ''2024-07-03'']
     = [''2024-07-02'', ''2024-07-01'', ''2024-07-03'']"
  by (simp add: completion_order_def)

lemma demo_completion_5:
  "completion_order [1]
       [''2024-07-01'', ''2024-07-02'', ''2024-07-03'', ''2024-07-04'', ''2024-07-05'']
     = [''2024-07-02'', ''2024-07-01'', ''2024-07-03'', ''2024-07-04'', ''2024-07-05'']"
  by (simp add: completion_order_def)

lemma demo_effective_3:
  "effective_dates (Some [''2024-07-01'', ''2024-07-02'', ''2024-07-03''])
      [''2024-07-01'', ''2024-07-02'', ''2024-07-03'', ''2024-07-04'', ''2024-07-05'']
      = [''2024-07-01'', ''2024-07-02'', ''2024-07-03'']"
  by (simp add: effective_dates_def)

lemma demo_tables_3:
  "success_tables demo_world ''BTCUSDT'' ''1d'' sv od
     [''2024-07-02'', ''2024-07-01'', ''2024-07-03''] = [frame15, frame10]"
  by (simp add: success_tables_def List.map_filter_def demo_fetch)

lemma demo_concat:
  "pd_concat demo_world [frame15, frame10]
     = Inr \<lparr>columns = [''time'', ''close''], rows = rows frame15 @ rows frame10\<rparr>"
  by (simp add: pd_concat_def concat_columns_def stacked_rows_def aligned_rows_def
      demo_world_def frame10_def frame15_def)

lemma demo_stacked:
  "concat (map (stacked_rows demo_world [frame15, frame10]) [frame15, frame10])
     = rows frame15 @ rows frame10"
  by (simp add: concat_columns_def stacked_rows_def aligned_rows_def
      demo_world_def frame10_def frame15_def)

lemma no_failed_keys_empty_state: "failed_keys (logged empty_state) = []"
  by (simp add: empty_state_def failed_keys_def List.map_filter_def)

lemma stacking_converts_cells:
  "pd_concat upcast_world [ints_frame, floats_frame]
     = Inr \<lparr>columns = [''volume''],
            rows = [[Some ''9007199254740992.0''], [Some ''0.5'']]\<rparr>"
  by (simp add: pd_concat_def concat_columns_def stacked_rows_def aligned_rows_def
      upcast_world_def ints_frame_def floats_frame_def)

subsection \<open>The coordinator\<close>

text \<open>
  Claim C1. When the listing is obtained, \<^verbatim>\<open>get_combined_data\<close> returns only after
  every date of the request list has been dispatched and has resolved, whatever order
  the futures complete in: one request has been sent for each date; the dates handled
  by the loop are a permutation of the request list; the value returned is built from
  the frames of the fetches that succeeded; each other fetch has left one error
  record naming its date; and so the number of frames plus the number of failed dates
  logged by the call is the length of the request list. Requests and records are
  compared as multisets, their order among threads not being determined.
\<close>

theorem every_dispatched_fetch_resolves:
  assumes "fst (get_available_dates w t f s) = Inr avail"
  shows "mset (completion_order sched (effective_dates dates avail))
       = mset (effective_dates dates avail)
     \<and> mset (requested (snd (get_combined_data w sched t f dates sv od s)))
       = mset (requested s) + mset (map (download_url t f) (effective_dates dates avail))
     \<and> fst (get_combined_data w sched t f dates sv od s)
       = (if success_tables w t f sv od
               (completion_order sched (effective_dates dates avail)) = []
          then Inr pd_DataFrame
          else pd_concat w (success_tables w t f sv od
               (completion_order sched (effective_dates dates avail))))
     \<and> mset (failed_keys (logged (snd (get_combined_data w sched t f dates sv od s))))
       = mset (failed_keys (logged s))
         + mset (failed_dates w t f sv od (effective_dates dates avail))
     \<and> length (success_tables w t f sv od
           (completion_order sched (effective_dates dates avail)))
         + length (failed_keys (logged (snd (get_combined_data w sched t f dates sv od s))))
       = length (effective_dates dates avail) + length (failed_keys (logged s))"
proof -
  let ?eff = "effective_dates dates avail"
  let ?run = "get_combined_data w sched t f dates sv od s"
  have keys: "mset (failed_keys (logged (snd ?run)))
      = mset (failed_keys (logged s)) + mset (failed_dates w t f sv od ?eff)"
    using assms by (rule get_combined_data_failed_keys)
  then have "size (mset (failed_keys (logged (snd ?run))))
      = size (mset (failed_keys (logged s)) + mset (failed_dates w t f sv od ?eff))"
    by simp
  then have n: "length (failed_keys (logged (snd ?run)))
      = length (failed_keys (logged s)) + length (failed_dates w t f sv od ?eff)"
    by simp
  have "length (failed_dates w t f sv od (completion_order sched ?eff))
      = length (failed_dates w t f sv od ?eff)"
    using filter_completion_order [of _ sched ?eff]
    unfolding failed_dates_def by (metis size_mset)
  then have count: "length (success_tables w t f sv od (completion_order sched ?eff))
      + length (failed_dates w t f sv od ?eff) = length ?eff"
    using tables_and_failures [of w t f sv od "completion_order sched ?eff"]
    by (simp add: completion_order_length)
  have "mset (requested (snd ?run))
      = mset (requested s) + mset (map (download_url t f) ?eff)"
    by (simp only: get_combined_data_parts(3) [OF assms] mset_append)
  then show ?thesis
    using completion_order_mset [of sched ?eff] get_combined_data_parts(1) [OF assms]
      keys n count
    by simp
qed

text \<open>
  All five dates of the example server: two frames are combined, three dates are in
  the error log, five requests were sent.
\<close>

theorem every_dispatched_fetch_resolves_witness:
  "fst (get_combined_data demo_world [1] ''BTCUSDT'' ''1d'' None False ''kucoin_data'' empty_state)
     = Inr \<lparr>columns = [''time'', ''close''], rows = rows frame15 @ rows frame10\<rparr>
   \<and> length (failed_keys (logged (snd (get_combined_data demo_world [1] ''BTCUSDT'' ''1d'' None
         False ''kucoin_data'' empty_state)))) = 3
   \<and> mset (requested (snd (get_combined_data demo_world [1] ''BTCUSDT'' ''1d'' None False
         ''kucoin_data'' empty_state)))
     = mset (map (download_url ''BTCUSDT'' ''1d'')
         [''2024-07-01'', ''2024-07-02'', ''2024-07-03'', ''2024-07-04'', ''2024-07-05''])"
proof -
  have tabs: "success_tables demo_world ''BTCUSDT'' ''1d'' False ''kucoin_data''
      [''2024-07-02'', ''2024-07-01'', ''2024-07-03'', ''2024-07-04'', ''2024-07-05'']
      = [frame15, frame10]"
    by (simp add: success_tables_def List.map_filter_def demo_fetch)
  have eff: "effective_dates None
      [''2024-07-01'', ''2024-07-02'', ''2024-07-03'', ''2024-07-04'', ''2024-07-05'']
      = [''2024-07-01'', ''2024-07-02'', ''2024-07-03'', ''2024-07-04'', ''2024-07-05'']"
    by (simp add: effective_dates_def)
  have none: "requested empty_state = []"
    by (simp add: empty_state_def)
  show ?thesis
    using every_dispatched_fetch_resolves [where s = empty_state and sched = "[1]"
        and dates = None and sv = False and od = "''kucoin_data''", OF demo_listing]
    unfolding eff demo_completion_5 tabs demo_concat no_failed_keys_empty_state none
    by simp
qed

subsection \<open>The combiner\<close>

text \<open>
  Claim C2. When the listing is obtained, the call returns a frame whose rows are the
  rows of the frames of the dates whose fetch succeeded, in completion order, each
  aligned to the columns of the result and converted to their dtypes, and nothing
  else; so the number of rows is the sum of the numbers of rows of those frames. A
  date whose fetch returned \<^verbatim>\<open>None\<close> or raised is not among \<open>succeeded_dates\<close> and
  contributes nothing.
\<close>

theorem combined_rows_from_successes:
  assumes "fst (get_available_dates w t f s) = Inr avail"
  shows "\<exists>df. fst (get_combined_data w sched t f dates sv od s) = Inr df
     \<and> rows df = concat (map
         (stacked_rows w (success_tables w t f sv od (succeeded_dates w t f sv od
            (completion_order sched (effective_dates dates avail)))))
         (success_tables w t f sv od (succeeded_dates w t f sv od
            (completion_order sched (effective_dates dates avail)))))
     \<and> length (rows df) = sum_list (map (\<lambda>t. length (rows t))
         (success_tables w t f sv od (succeeded_dates w t f sv od
            (completion_order sched (effective_dates dates avail)))))"
  using get_combined_data_returns [OF assms, where sched = sched and dates = dates
      and sv = sv and od = od]
  unfolding success_tables_succeeded by blast

text \<open>
  The example of the specification: of three dates two succeed, with 10 and 15 rows,
  and one fails in transport; the result has 25 rows.
\<close>

theorem combined_rows_from_successes_witness:
  "\<exists>df. fst (get_combined_data demo_world [1] ''BTCUSDT'' ''1d''
              (Some [''2024-07-01'', ''2024-07-02'', ''2024-07-03'']) False ''kucoin_data''
              empty_state) = Inr df
         \<and> rows df = rows frame15 @ rows frame10
         \<and> length (rows df) = 25"
proof -
  have ok: "succeeded_dates demo_world ''BTCUSDT'' ''1d'' False ''kucoin_data''
        [''2024-07-02'', ''2024-07-01'', ''2024-07-03''] = [''2024-07-02'', ''2024-07-01'']"
    by (simp add: succeeded_dates_def demo_fetch)
  have tabs: "success_tables demo_world ''BTCUSDT'' ''1d'' False ''kucoin_data''
        [''2024-07-02'', ''2024-07-01''] = [frame15, frame10]"
    by (simp add: success_tables_def List.map_filter_def demo_fetch)
  have n: "sum_list (map (\<lambda>t. length (rows t)) [frame15, frame10]) = 25"
    by (simp add: frame10_def frame15_def)
  show ?thesis
    using combined_rows_from_successes [where s = empty_state and sched = "[1]"
        and dates = "Some [''2024-07-01'', ''2024-07-02'', ''2024-07-03'']" and sv = False
        and od = "''kucoin_data''", OF demo_listing]
    unfolding demo_effective_3 demo_completion_3 ok tabs demo_stacked n by blast
qed

subsection \<open>Runs without a success\<close>

lemma no_success_no_tables:
  assumes "\<forall>d \<in> set ds. \<not> is_success (fetch_result w t f sv od d)"
  shows "success_tables w t f sv od ds = []"
  using assms
proof (induction ds)
  case Nil
  show ?case by (simp add: success_tables_def List.map_filter_def)
next
  case (Cons d ds)
  then have "\<not> is_success (fetch_result w t f sv od d)" by simp
  then have "table_of (fetch_result w t f sv od d) = None"
    by (cases "fetch_result w t f sv od d" rule: is_success.cases) simp_all
  then show ?case using Cons by (simp add: success_tables_def List.map_filter_def)
qed

text \<open>
  Claim C4. When the listing is obtained and no requested date has a successful fetch
  (in particular when no date is requested at all), the call returns the empty frame
  \<^verbatim>\<open>pd.DataFrame()\<close>; it does not raise.
\<close>

theorem no_success_gives_empty_dataframe:
  assumes "fst (get_available_dates w t f s) = Inr avail"
    and "\<forall>d \<in> set (effective_dates dates avail). \<not> is_success (fetch_result w t f sv od d)"
  shows "fst (get_combined_data w sched t f dates sv od s) = Inr pd_DataFrame"
proof -
  have "\<forall>d \<in> set (completion_order sched (effective_dates dates avail)).
          \<not> is_success (fetch_result w t f sv od d)"
    using assms(2) by (simp only: completion_order_set)
  then have "success_tables w t f sv od
      (completion_order sched (effective_dates dates avail)) = []"
    by (rule no_success_no_tables)
  then show ?thesis
    using get_combined_data_parts(1) [OF assms(1), where sched = sched and dates = dates
        and sv = sv and od = od]
    by simp
qed

text \<open>
  Three dates that all fail (in transport, by status 404, by a bad archive), and an
  empty list of dates.
\<close>

theorem no_success_gives_empty_dataframe_witness:
  "fst (get_combined_data demo_world [2, 0] ''BTCUSDT'' ''1d''
          (Some [''2024-07-03'', ''2024-07-04'', ''2024-07-05'']) False ''kucoin_data'' empty_state)
     = Inr \<lparr>columns = [], rows = []\<rparr>
   \<and> fst (get_combined_data demo_world [] ''BTCUSDT'' ''1d''
          (Some []) False ''kucoin_data'' empty_state)
     = Inr \<lparr>columns = [], rows = []\<rparr>"
proof -
  have a: "\<forall>d \<in> set (effective_dates (Some [''2024-07-03'', ''2024-07-04'', ''2024-07-05''])
      [''2024-07-01'', ''2024-07-02'', ''2024-07-03'', ''2024-07-04'', ''2024-07-05'']).
      \<not> is_success (fetch_result demo_world ''BTCUSDT'' ''1d'' False ''kucoin_data'' d)"
    by (simp add: effective_dates_def demo_fetch)
  have b: "\<forall>d \<in> set (effective_dates (Some [])
      [''2024-07-01'', ''2024-07-02'', ''2024-07-03'', ''2024-07-04'', ''2024-07-05'']).
      \<not> is_success (fetch_result demo_world ''BTCUSDT'' ''1d'' False ''kucoin_data'' d)"
    by (simp add: effective_dates_def)
  show ?thesis
    using no_success_gives_empty_dataframe [where s = empty_state and sched = "[2, 0]",
        OF demo_listing a]
      no_success_gives_empty_dataframe [where s = empty_state and sched = "[]",
        OF demo_listing b]
    by (simp add: pd_DataFrame_def)
qed

subsection \<open>One fetch that raises\<close>

lemma failed_date_no_table:
  assumes "\<not> is_success (fetch_result w t f sv od d)"
  shows "success_tables w t f sv od ds = success_tables w t f sv od (filter (\<lambda>x. x \<noteq> d) ds)"
proof (induction ds)
  case Nil
  show ?case by simp
next
  case (Cons x ds)
  show ?case
  proof (cases "x = d")
    case True
    have "table_of (fetch_result w t f sv od d) = None"
      using assms by (cases "fetch_result w t f sv od d" rule: is_success.cases) simp_all
    then show ?thesis using True Cons by (simp add: success_tables_def List.map_filter_def)
  next
    case False
    then show ?thesis using Cons by (simp add: success_tables_def List.map_filter_def)
  qed
qed

lemma all_success_all_tables:
  assumes "\<forall>x \<in> set ds. is_success (fetch_result w t f sv od x)"
  shows "length (success_tables w t f sv od ds) = length ds"
  using assms
proof (induction ds)
  case Nil
  show ?case by (simp add: success_tables_def List.map_filter_def)
next
  case (Cons x ds)
  then have "is_success (fetch_result w t f sv od x)" by simp
  then obtain df where "fetch_result w t f sv od x = Inr (Some df)"
    by (cases "fetch_result w t f sv od x" rule: is_success.cases) simp_all
  then show ?case using Cons by (simp add: success_tables_def List.map_filter_def)
qed

lemma length_filter_neq: "length (filter (\<lambda>x. x \<noteq> d) xs) + count_list xs d = length xs"
  by (induction xs) simp_all

lemma raised_record_member:
  assumes "d \<in> set ds" and "fetch_result w t f sv od d = Inl e"
  shows "(ERROR, ExceptionProcessing d e) \<in> set (raised_records w t f sv od ds)"
proof -
  let ?g = "\<lambda>date. case fetch_result w t f sv od date of
      Inl e \<Rightarrow> [(ERROR, ExceptionProcessing date e)] | Inr r \<Rightarrow> []"
  have mem: "(ERROR, ExceptionProcessing d e) \<in> set (?g d)"
    using assms(2) by simp
  have "?g d \<in> ?g ` set ds"
    using assms(1) by (rule imageI)
  then have "(ERROR, ExceptionProcessing d e) \<in> \<Union> (set ` (?g ` set ds))"
    using mem by (rule UN_I)
  then show ?thesis
    by (simp only: raised_records_def set_concat set_map)
qed


lemma records_in_log:
  assumes "fst (get_available_dates w t f s) = Inr avail"
  shows "set (raised_records w t f sv od (completion_order sched (effective_dates dates avail)))
       \<subseteq> set (logged (snd (get_combined_data w sched t f dates sv od s)))"
    and "set (concat (map (fetch_log w t f sv od) (effective_dates dates avail)))
       \<subseteq> set (logged (snd (get_combined_data w sched t f dates sv od s)))"
proof -
  obtain final where lg: "logged (snd (get_combined_data w sched t f dates sv od s)) =
        logged s @ [(INFO, AvailableDates t (length avail) f)]
          @ concat (map (fetch_log w t f sv od) (effective_dates dates avail))
          @ raised_records w t f sv od (completion_order sched (effective_dates dates avail))
          @ [final]"
    using get_combined_data_parts(2) [OF assms] by blast
  show "set (raised_records w t f sv od (completion_order sched (effective_dates dates avail)))
       \<subseteq> set (logged (snd (get_combined_data w sched t f dates sv od s)))"
    by (auto simp: lg)
  show "set (concat (map (fetch_log w t f sv od) (effective_dates dates avail)))
       \<subseteq> set (logged (snd (get_combined_data w sched t f dates sv od s)))"
    by (auto simp: lg)
qed

text \<open>
  Claim C3. When the listing is obtained and the fetch of a date \<open>d\<close> of the request
  list raises \<open>e\<close>, the call records \<open>e\<close> in the error log under \<open>d\<close> and goes on: it
  still sends a request for every date and returns a frame, the one combined from the
  frames of the request list without \<open>d\<close>. When all the other dates succeed, these
  are as many frames as there are other entries in the list (\<open>n - 1\<close> when \<open>d\<close> is
  listed once).
\<close>

theorem exception_in_one_fetch_spares_the_others:
  assumes "fst (get_available_dates w t f s) = Inr avail"
    and "d \<in> set (effective_dates dates avail)"
    and "fetch_result w t f sv od d = Inl e"
  shows "(ERROR, ExceptionProcessing d e)
       \<in> set (logged (snd (get_combined_data w sched t f dates sv od s)))
     \<and> mset (requested (snd (get_combined_data w sched t f dates sv od s)))
       = mset (requested s) + mset (map (download_url t f) (effective_dates dates avail))
     \<and> (\<exists>df. fst (get_combined_data w sched t f dates sv od s) = Inr df)
     \<and> fst (get_combined_data w sched t f dates sv od s)
       = (if success_tables w t f sv od (filter (\<lambda>x. x \<noteq> d)
               (completion_order sched (effective_dates dates avail))) = []
          then Inr pd_DataFrame
          else pd_concat w (success_tables w t f sv od (filter (\<lambda>x. x \<noteq> d)
               (completion_order sched (effective_dates dates avail)))))
     \<and> ((\<forall>x \<in> set (effective_dates dates avail).
            x \<noteq> d \<longrightarrow> is_success (fetch_result w t f sv od x)) \<longrightarrow>
          length (success_tables w t f sv od (filter (\<lambda>x. x \<noteq> d)
               (completion_order sched (effective_dates dates avail))))
            + count_list (effective_dates dates avail) d
          = length (effective_dates dates avail))"
proof -
  let ?eff = "effective_dates dates avail"
  let ?ord = "completion_order sched ?eff"
  let ?run = "get_combined_data w sched t f dates sv od s"
  have "d \<in> set ?ord"
    using assms(2) by (simp only: completion_order_set)
  then have "(ERROR, ExceptionProcessing d e) \<in> set (raised_records w t f sv od ?ord)"
    using assms(3) by (rule raised_record_member)
  then have 1: "(ERROR, ExceptionProcessing d e) \<in> set (logged (snd ?run))"
    using records_in_log(1) [OF assms(1), where sched = sched and dates = dates
        and sv = sv and od = od] by blast
  have 2: "mset (requested (snd ?run))
      = mset (requested s) + mset (map (download_url t f) ?eff)"
    by (simp only: get_combined_data_parts(3) [OF assms(1)] mset_append)
  have 3: "\<exists>df. fst ?run = Inr df"
    using get_combined_data_returns [OF assms(1), where sched = sched and dates = dates
        and sv = sv and od = od] by blast
  have nd: "\<not> is_success (fetch_result w t f sv od d)"
    using assms(3) by simp
  have same: "success_tables w t f sv od ?ord
      = success_tables w t f sv od (filter (\<lambda>x. x \<noteq> d) ?ord)"
    using nd by (rule failed_date_no_table)
  have 4: "fst ?run
      = (if success_tables w t f sv od (filter (\<lambda>x. x \<noteq> d) ?ord) = []
         then Inr pd_DataFrame
         else pd_concat w (success_tables w t f sv od (filter (\<lambda>x. x \<noteq> d) ?ord)))"
    using get_combined_data_parts(1) [OF assms(1), where sched = sched and dates = dates
        and sv = sv and od = od]
    by (simp only: same [symmetric])
  have 5: "(\<forall>x \<in> set ?eff. x \<noteq> d \<longrightarrow> is_success (fetch_result w t f sv od x)) \<longrightarrow>
      length (success_tables w t f sv od (filter (\<lambda>x. x \<noteq> d) ?ord))
        + count_list ?eff d = length ?eff"
  proof (rule impI)
    assume others: "\<forall>x \<in> set ?eff. x \<noteq> d \<longrightarrow> is_success (fetch_result w t f sv od x)"
    have "\<forall>x \<in> set (filter (\<lambda>x. x \<noteq> d) ?ord). is_success (fetch_result w t f sv od x)"
      using others completion_order_set [of sched ?eff] by auto
    then have "length (success_tables w t f sv od (filter (\<lambda>x. x \<noteq> d) ?ord))
        = length (filter (\<lambda>x. x \<noteq> d) ?ord)"
      by (rule all_success_all_tables)
    moreover have "length (filter (\<lambda>x. x \<noteq> d) ?ord) + count_list ?ord d = length ?ord"
      by (rule length_filter_neq)
    ultimately show "length (success_tables w t f sv od (filter (\<lambda>x. x \<noteq> d) ?ord))
        + count_list ?eff d = length ?eff"
      by (simp only: completion_order_count completion_order_length)
  qed
  show ?thesis
    by (rule conjI [OF 1 conjI [OF 2 conjI [OF 3 conjI [OF 4 5]]]])
qed

text \<open>
  One transport failure among three dates: the two other frames are combined, and all
  three requests were sent.
\<close>

theorem exception_in_one_fetch_spares_the_others_witness:
  "(ERROR, ExceptionProcessing ''2024-07-03'' ConnectionError)
       \<in> set (logged (snd (get_combined_data demo_world [1] ''BTCUSDT'' ''1d''
            (Some [''2024-07-01'', ''2024-07-02'', ''2024-07-03'']) False ''kucoin_data''
            empty_state)))
   \<and> fst (get_combined_data demo_world [1] ''BTCUSDT'' ''1d''
            (Some [''2024-07-01'', ''2024-07-02'', ''2024-07-03'']) False ''kucoin_data''
            empty_state)
     = Inr \<lparr>columns = [''time'', ''close''], rows = rows frame15 @ rows frame10\<rparr>
   \<and> mset (requested (snd (get_combined_data demo_world [1] ''BTCUSDT'' ''1d''
            (Some [''2024-07-01'', ''2024-07-02'', ''2024-07-03'']) False ''kucoin_data''
            empty_state)))
     = mset (map (download_url ''BTCUSDT'' ''1d'')
         [''2024-07-01'', ''2024-07-02'', ''2024-07-03''])"
proof -
  have d: "''2024-07-03'' \<in> set (effective_dates
      (Some [''2024-07-01'', ''2024-07-02'', ''2024-07-03''])
      [''2024-07-01'', ''2024-07-02'', ''2024-07-03'', ''2024-07-04'', ''2024-07-05''])"
    by (simp add: effective_dates_def)
  have tabs: "success_tables demo_world ''BTCUSDT'' ''1d'' False ''kucoin_data''
      (filter (\<lambda>x. x \<noteq> ''2024-07-03'') [''2024-07-02'', ''2024-07-01'', ''2024-07-03''])
      = [frame15, frame10]"
    by (simp add: success_tables_def List.map_filter_def demo_fetch)
  have none: "requested empty_state = []"
    by (simp add: empty_state_def)
  show ?thesis
    using exception_in_one_fetch_spares_the_others [where s = empty_state and sched = "[1]"
        and sv = False and od = "''kucoin_data''", OF demo_listing d demo_fetch_03]
    unfolding demo_effective_3 demo_completion_3 tabs demo_concat none
    by simp
qed

subsection \<open>A response whose status is not 200\<close>

text \<open>
  Claim C5, as the code has it. When the response has a status other than 200, the
  fetch does not raise: it returns \<^verbatim>\<open>None\<close>, and the only trace of the status code
  is the error record that it logs, with the date. Nothing is written to disk.
\<close>

theorem status_not_200_returns_None_and_logs_status:
  assumes "requests_get w (download_url t f d) = Inr resp" and "status_code resp \<noteq> 200"
  shows "download_and_process w t f sv od d s =
     (Inr None,
      LOGGER ERROR (FailedDownload d (status_code resp))
        (s\<lparr>requested := requested s @ [download_url t f d]\<rparr>))"
  using assms by (simp add: download_and_process_def Let_def)

text \<open>The fourth date of the example server is answered with 404.\<close>

theorem status_not_200_returns_None_and_logs_status_witness:
  "fst (download_and_process demo_world ''BTCUSDT'' ''1d'' False ''kucoin_data'' ''2024-07-04''
          empty_state) = Inr None
   \<and> logged (snd (download_and_process demo_world ''BTCUSDT'' ''1d'' False ''kucoin_data''
          ''2024-07-04'' empty_state)) = [(ERROR, FailedDownload ''2024-07-04'' 404)]
   \<and> files (snd (download_and_process demo_world ''BTCUSDT'' ''1d'' False ''kucoin_data''
          ''2024-07-04'' empty_state)) ''kucoin_data/BTCUSDT/1d/BTCUSDT-1d-2024-07-04.csv'' = None"
proof -
  have ne: "status_code \<lparr>status_code = 404, content = []\<rparr> \<noteq> 200"
    by simp
  show ?thesis
    by (simp add: status_not_200_returns_None_and_logs_status [OF demo_get_04 ne] LOGGER_def
        empty_state_def)
qed

text \<open>
  Claim C5 as stated fails: the value returned does not carry the status code. It is
  \<^verbatim>\<open>None\<close> for a 404 and for a 500 alike.
\<close>

theorem returned_value_same_for_404_and_500:
  "fst (download_and_process (status_world 404) ''BTCUSDT'' ''1d'' False ''kucoin_data''
          ''2024-07-01'' empty_state) = Inr None
   \<and> fst (download_and_process (status_world 500) ''BTCUSDT'' ''1d'' False ''kucoin_data''
          ''2024-07-01'' empty_state) = Inr None"
  by (simp add: download_and_process_def status_world_def Let_def)

subsection \<open>The request list\<close>

text \<open>
  Claim C6. When the caller gives a list of dates and the listing is obtained, the
  dates requested are those of the list that the listing has: the URLs requested are
  exactly theirs. When there is none, the call returns the empty frame at once: it
  logs the listing and a warning, requests nothing and writes no file.
\<close>

theorem request_list_is_intersection:
  assumes "fst (get_available_dates w t f s) = Inr avail"
  shows "set (effective_dates (Some ds) avail) = set ds \<inter> set avail
     \<and> set (requested (snd (get_combined_data w sched t f (Some ds) sv od s)))
        = set (requested s) \<union> download_url t f ` (set ds \<inter> set avail)
     \<and> (set ds \<inter> set avail = {} \<longrightarrow>
          get_combined_data w sched t f (Some ds) sv od s =
            (Inr pd_DataFrame,
             LOGGER WARNING (NoDatesAvailable t f)
               (LOGGER INFO (AvailableDates t (length avail) f) s))
          \<and> requested (snd (get_combined_data w sched t f (Some ds) sv od s)) = requested s
          \<and> files (snd (get_combined_data w sched t f (Some ds) sv od s)) = files s)"
proof -
  have eff: "set (effective_dates (Some ds) avail) = set ds \<inter> set avail"
    by (auto simp: effective_dates_def)
  have "set (requested (snd (get_combined_data w sched t f (Some ds) sv od s)))
      = set (requested s) \<union> download_url t f ` set (effective_dates (Some ds) avail)"
    by (simp only: get_combined_data_parts(3) [OF assms] set_append set_map)
  then have req: "set (requested (snd (get_combined_data w sched t f (Some ds) sv od s)))
      = set (requested s) \<union> download_url t f ` (set ds \<inter> set avail)"
    by (simp only: eff)
  have empty: "get_combined_data w sched t f (Some ds) sv od s =
            (Inr pd_DataFrame,
             LOGGER WARNING (NoDatesAvailable t f)
               (LOGGER INFO (AvailableDates t (length avail) f) s))"
    if "set ds \<inter> set avail = {}"
  proof -
    have "effective_dates (Some ds) avail = []"
      using that eff by simp
    then show ?thesis using listing_obtained [OF assms]
      by (simp add: get_combined_data_def)
  qed
  show ?thesis using eff req empty by (simp add: LOGGER_def)
qed

text \<open>Two dates that are not listed; and one listed date out of two.\<close>

theorem request_list_is_intersection_witness:
  "get_combined_data demo_world [1] ''BTCUSDT'' ''1d'' (Some [''2023-01-01'', ''2023-01-02''])
       False ''kucoin_data'' empty_state
     = (Inr \<lparr>columns = [], rows = []\<rparr>,
        \<lparr>files = Map.empty,
         logged = [(INFO, AvailableDates ''BTCUSDT'' 5 ''1d''),
                   (WARNING, NoDatesAvailable ''BTCUSDT'' ''1d'')],
         requested = []\<rparr>)
   \<and> set (effective_dates (Some [''2023-01-01'', ''2024-07-02''])
        [''2024-07-01'', ''2024-07-02'', ''2024-07-03'', ''2024-07-04'', ''2024-07-05''])
     = {''2024-07-02''}"
proof -
  have out: "set [''2023-01-01'', ''2023-01-02'']
      \<inter> set [''2024-07-01'', ''2024-07-02'', ''2024-07-03'', ''2024-07-04'', ''2024-07-05''] = {}"
    by simp
  show ?thesis
    using request_list_is_intersection [where s = empty_state
        and ds = "[''2023-01-01'', ''2023-01-02'']" and sched = "[1]" and sv = False
        and od = "''kucoin_data''", OF demo_listing]
      request_list_is_intersection [where s = empty_state
        and ds = "[''2023-01-01'', ''2024-07-02'']" and sched = "[1]" and sv = False
        and od = "''kucoin_data''", OF demo_listing] out
    by (simp add: pd_DataFrame_def LOGGER_def empty_state_def)
qed

subsection \<open>Which errors reach the caller\<close>




subsection \<open>What the caller sees of the failures\<close>

text \<open>
  Claim C8, as the code has it. When the listing is obtained, the call returns the
  frame that \<^verbatim>\<open>pd.concat\<close> makes of the frames of the fetches that succeeded, and of
  nothing else, however many fetches failed: its columns are theirs and its rows are
  their rows, in completion order. The failed dates are not part of what is returned:
  they are in the error log, one record for each failed fetch.
\<close>

theorem failed_dates_are_logged_not_returned:
  assumes "fst (get_available_dates w t f s) = Inr avail"
  shows "fst (get_combined_data w sched t f dates sv od s)
       = (if success_tables w t f sv od
               (completion_order sched (effective_dates dates avail)) = []
          then Inr pd_DataFrame
          else pd_concat w (success_tables w t f sv od
               (completion_order sched (effective_dates dates avail))))
     \<and> (\<exists>df. fst (get_combined_data w sched t f dates sv od s) = Inr df
          \<and> columns df = concat_columns (success_tables w t f sv od
               (completion_order sched (effective_dates dates avail)))
          \<and> rows df = concat (map
               (stacked_rows w (success_tables w t f sv od
                  (completion_order sched (effective_dates dates avail))))
               (success_tables w t f sv od
                  (completion_order sched (effective_dates dates avail))))
          \<and> length (rows df) = sum_list (map (\<lambda>t. length (rows t))
               (success_tables w t f sv od
                  (completion_order sched (effective_dates dates avail)))))
     \<and> mset (failed_keys (logged (snd (get_combined_data w sched t f dates sv od s))))
       = mset (failed_keys (logged s))
         + mset (failed_dates w t f sv od (effective_dates dates avail))"
  using get_combined_data_parts(1) [OF assms, where sched = sched and dates = dates
      and sv = sv and od = od]
    get_combined_data_returns [OF assms, where sched = sched and dates = dates
      and sv = sv and od = od]
    get_combined_data_failed_keys [OF assms, where sched = sched and dates = dates
      and sv = sv and od = od]
  by (intro conjI)

text \<open>
  The example of the specification: frames of 10 and 15 rows and one transport
  failure give the frame of their 25 rows, cell by cell, and the log names the failed
  date.
\<close>

theorem failed_dates_are_logged_not_returned_witness:
  "fst (get_combined_data demo_world [1] ''BTCUSDT'' ''1d''
          (Some [''2024-07-01'', ''2024-07-02'', ''2024-07-03'']) False ''kucoin_data''
          empty_state)
     = Inr \<lparr>columns = [''time'', ''close''],
            rows = replicate 15 [Some ''1719878400'', Some ''61000.5'']
                 @ replicate 10 [Some ''1719792000'', Some ''62000.1'']\<rparr>
   \<and> mset (failed_keys (logged (snd (get_combined_data demo_world [1] ''BTCUSDT'' ''1d''
          (Some [''2024-07-01'', ''2024-07-02'', ''2024-07-03'']) False ''kucoin_data''
          empty_state)))) = mset [''2024-07-03'']"
proof -
  have fails: "failed_dates demo_world ''BTCUSDT'' ''1d'' False ''kucoin_data''
        [''2024-07-01'', ''2024-07-02'', ''2024-07-03''] = [''2024-07-03'']"
    by (simp add: failed_dates_def demo_fetch)
  have rows: "rows frame15 @ rows frame10
      = replicate 15 [Some ''1719878400'', Some ''61000.5'']
        @ replicate 10 [Some ''1719792000'', Some ''62000.1'']"
    by (simp add: frame10_def frame15_def)
  show ?thesis
    using failed_dates_are_logged_not_returned [where s = empty_state and sched = "[1]"
        and dates = "Some [''2024-07-01'', ''2024-07-02'', ''2024-07-03'']" and sv = False
        and od = "''kucoin_data''", OF demo_listing]
    unfolding demo_effective_3 demo_completion_3 demo_tables_3 demo_concat fails
      no_failed_keys_empty_state rows
    by simp
qed

text \<open>
  Claim C8 as stated fails: the value returned is only the frame. A run in which a
  date failed and a run in which none did return the same value; they differ in the
  log.
\<close>

theorem returned_frame_does_not_tell_failures:
  "fst (get_combined_data demo_world [] ''BTCUSDT'' ''1d''
          (Some [''2024-07-01'', ''2024-07-03'']) False ''kucoin_data'' empty_state) = Inr frame10
   \<and> mset (failed_keys (logged (snd (get_combined_data demo_world [] ''BTCUSDT'' ''1d''
          (Some [''2024-07-01'', ''2024-07-03'']) False ''kucoin_data'' empty_state))))
       = mset [''2024-07-03'']
   \<and> fst (get_combined_data demo_world [] ''BTCUSDT'' ''1d''
          (Some [''2024-07-01'']) False ''kucoin_data'' empty_state) = Inr frame10
   \<and> failed_keys (logged (snd (get_combined_data demo_world [] ''BTCUSDT'' ''1d''
          (Some [''2024-07-01'']) False ''kucoin_data'' empty_state))) = []"
proof -
  have one: "pd_concat demo_world [frame10] = Inr frame10"
    by (simp add: pd_concat_def concat_columns_def stacked_rows_def aligned_rows_def
        demo_world_def frame10_def)
  have ord: "completion_order [] [''2024-07-01'', ''2024-07-03''] = [''2024-07-01'', ''2024-07-03'']"
    "completion_order [] [''2024-07-01''] = [''2024-07-01'']"
    by (simp_all add: completion_order_def)
  have a: "fst (get_combined_data demo_world [] ''BTCUSDT'' ''1d''
          (Some [''2024-07-01'', ''2024-07-03'']) False ''kucoin_data'' empty_state) = Inr frame10"
    by (simp add: get_combined_data_parts(1) [OF demo_listing] effective_dates_def ord
        success_tables_def List.map_filter_def demo_fetch one)
  have b: "fst (get_combined_data demo_world [] ''BTCUSDT'' ''1d''
          (Some [''2024-07-01'']) False ''kucoin_data'' empty_state) = Inr frame10"
    by (simp add: get_combined_data_parts(1) [OF demo_listing] effective_dates_def ord
        success_tables_def List.map_filter_def demo_fetch one)
  have c: "mset (failed_keys (logged (snd (get_combined_data demo_world [] ''BTCUSDT'' ''1d''
          (Some [''2024-07-01'', ''2024-07-03'']) False ''kucoin_data'' empty_state))))
       = mset [''2024-07-03'']"
    by (simp add: get_combined_data_failed_keys [OF demo_listing] effective_dates_def
        failed_dates_def demo_fetch no_failed_keys_empty_state)
  have d: "mset (failed_keys (logged (snd (get_combined_data demo_world [] ''BTCUSDT'' ''1d''
          (Some [''2024-07-01'']) False ''kucoin_data'' empty_state)))) = {#}"
    by (simp add: get_combined_data_failed_keys [OF demo_listing] effective_dates_def
        failed_dates_def demo_fetch no_failed_keys_empty_state)
  show ?thesis using a b c d by simp
qed

subsection \<open>Saving to disk\<close>

lemma csv_path_template:
  assumes "os_path_join w = posixpath_join"
    and "od \<noteq> []" "last od \<noteq> CHR ''/''"
    and "t \<noteq> []" "hd t \<noteq> CHR ''/''" "last t \<noteq> CHR ''/''"
    and "f \<noteq> []" "hd f \<noteq> CHR ''/''" "last f \<noteq> CHR ''/''"
  shows "csv_path w od t f d
     = od @ ''/'' @ t @ ''/'' @ f @ ''/'' @ t @ ''-'' @ f @ ''-'' @ d @ ''.csv''"
proof -
  have 1: "join_component od t = od @ ''/'' @ t"
    using assms by (simp add: join_component_def)
  have 2: "join_component (od @ ''/'' @ t) f = od @ ''/'' @ t @ ''/'' @ f"
    using assms by (simp add: join_component_def)
  have 3: "join_component (od @ ''/'' @ t @ ''/'' @ f) (t @ ''-'' @ f @ ''-'' @ d @ ''.csv'')
      = od @ ''/'' @ t @ ''/'' @ f @ ''/'' @ t @ ''-'' @ f @ ''-'' @ d @ ''.csv''"
    using assms by (simp add: join_component_def)
  show ?thesis
    by (simp only: csv_path_def assms(1) posixpath_join_def foldl_Cons foldl_Nil 1 2 3)
qed

lemma files_download_and_process_False:
  "files (snd (download_and_process w t f False od d s)) = files s"
  by (simp add: download_and_process_def Let_def LOGGER_def
      split: sum.splits list.splits option.splits prod.splits)

lemma download_and_process_True:
  "fst (download_and_process w t f True od d s) =
     (case fst (download_and_process w t f False od d s) of
        Inl e \<Rightarrow> Inl e
      | Inr None \<Rightarrow> Inr None
      | Inr (Some df) \<Rightarrow>
          (case makedirs w (os_path_join w od [t, f]) of
             Some e \<Rightarrow> Inl e
           | None \<Rightarrow>
               (case to_csv w (csv_path w od t f d) of
                  Some e \<Rightarrow> Inl e
                | None \<Rightarrow> Inr (Some df))))"
  by (simp add: download_and_process_def Let_def
      split: sum.splits list.splits option.splits prod.splits)

lemma files_download_and_process_True:
  "files (snd (download_and_process w t f True od d s)) =
     (case fst (download_and_process w t f True od d s) of
        Inl e \<Rightarrow> files s
      | Inr None \<Rightarrow> files s
      | Inr (Some df) \<Rightarrow> (files s)(csv_path w od t f d \<mapsto> df))"
  by (simp add: download_and_process_def Let_def LOGGER_def
      split: sum.splits list.splits option.splits prod.splits)

text \<open>
  Claim C9, as the code has it. A fetch that returns a frame with the flag set has
  written it to \<open>csv_path\<close>, and returns the same frame without the flag. As long as
  \<^verbatim>\<open>os.makedirs\<close> and \<^verbatim>\<open>to_csv\<close> do not raise, the flag does not change the value
  returned; when one of them raises, the fetch that would have returned a frame raises
  that exception instead. Without the flag no file is written. The path is the
  platform's \<^verbatim>\<open>os.path.join\<close> of the parts. On POSIX it is
  \<^verbatim>\<open>{output_dir}/{ticker}/{frequency}/{ticker}-{frequency}-{date}.csv\<close> when the directory
  is not empty and does not end with a separator, and the ticker and the frequency
  are not empty and neither start nor end with one.
\<close>

theorem save_flag_writes_file_and_keeps_value:
  "(fst (download_and_process w t f True od d s) = Inr (Some df) \<longrightarrow>
      files (snd (download_and_process w t f True od d s)) (csv_path w od t f d) = Some df
      \<and> fst (download_and_process w t f False od d s) = Inr (Some df))
   \<and> (makedirs w (os_path_join w od [t, f]) = None \<and> to_csv w (csv_path w od t f d) = None \<longrightarrow>
        fst (download_and_process w t f True od d s)
          = fst (download_and_process w t f False od d s))
   \<and> (fst (download_and_process w t f False od d s) = Inr (Some df)
        \<and> makedirs w (os_path_join w od [t, f]) = Some e \<longrightarrow>
        fst (download_and_process w t f True od d s) = Inl e)
   \<and> (fst (download_and_process w t f False od d s) = Inr (Some df)
        \<and> makedirs w (os_path_join w od [t, f]) = None
        \<and> to_csv w (csv_path w od t f d) = Some e \<longrightarrow>
        fst (download_and_process w t f True od d s) = Inl e)
   \<and> files (snd (download_and_process w t f False od d s)) = files s
   \<and> (os_path_join w = posixpath_join
        \<and> od \<noteq> [] \<and> last od \<noteq> CHR ''/'' \<and> t \<noteq> [] \<and> hd t \<noteq> CHR ''/'' \<and> last t \<noteq> CHR ''/''
        \<and> f \<noteq> [] \<and> hd f \<noteq> CHR ''/'' \<and> last f \<noteq> CHR ''/'' \<longrightarrow>
        csv_path w od t f d
          = od @ ''/'' @ t @ ''/'' @ f @ ''/'' @ t @ ''-'' @ f @ ''-'' @ d @ ''.csv'')"
proof (intro conjI impI)
  assume "fst (download_and_process w t f True od d s) = Inr (Some df)"
  then show "files (snd (download_and_process w t f True od d s)) (csv_path w od t f d) = Some df"
    by (simp add: files_download_and_process_True)
next
  assume "fst (download_and_process w t f True od d s) = Inr (Some df)"
  then show "fst (download_and_process w t f False od d s) = Inr (Some df)"
    by (simp add: download_and_process_True split: sum.splits option.splits)
next
  assume "makedirs w (os_path_join w od [t, f]) = None \<and> to_csv w (csv_path w od t f d) = None"
  then show "fst (download_and_process w t f True od d s)
      = fst (download_and_process w t f False od d s)"
    by (simp add: download_and_process_True split: sum.splits option.splits)
next
  assume "fst (download_and_process w t f False od d s) = Inr (Some df)
      \<and> makedirs w (os_path_join w od [t, f]) = Some e"
  then show "fst (download_and_process w t f True od d s) = Inl e"
    by (simp add: download_and_process_True)
next
  assume "fst (download_and_process w t f False od d s) = Inr (Some df)
      \<and> makedirs w (os_path_join w od [t, f]) = None
      \<and> to_csv w (csv_path w od t f d) = Some e"
  then show "fst (download_and_process w t f True od d s) = Inl e"
    by (simp add: download_and_process_True)
next
  show "files (snd (download_and_process w t f False od d s)) = files s"
    by (rule files_download_and_process_False)
next
  assume "os_path_join w = posixpath_join
        \<and> od \<noteq> [] \<and> last od \<noteq> CHR ''/'' \<and> t \<noteq> [] \<and> hd t \<noteq> CHR ''/'' \<and> last t \<noteq> CHR ''/''
        \<and> f \<noteq> [] \<and> hd f \<noteq> CHR ''/'' \<and> last f \<noteq> CHR ''/''"
  then show "csv_path w od t f d
      = od @ ''/'' @ t @ ''/'' @ f @ ''/'' @ t @ ''-'' @ f @ ''-'' @ d @ ''.csv''"
    using csv_path_template by blast
qed

text \<open>
  The first date of the example server, saved under \<^verbatim>\<open>kucoin_data\<close>; and the same
  fetch where the file cannot be written.
\<close>

theorem save_flag_writes_file_and_keeps_value_witness:
  "fst (download_and_process demo_world ''BTCUSDT'' ''1d'' True ''kucoin_data'' ''2024-07-01''
          empty_state) = Inr (Some frame10)
   \<and> files (snd (download_and_process demo_world ''BTCUSDT'' ''1d'' True ''kucoin_data''
          ''2024-07-01'' empty_state)) ''kucoin_data/BTCUSDT/1d/BTCUSDT-1d-2024-07-01.csv''
       = Some frame10
   \<and> fst (download_and_process demo_world ''BTCUSDT'' ''1d'' False ''kucoin_data'' ''2024-07-01''
          empty_state) = Inr (Some frame10)
   \<and> fst (download_and_process read_only_world ''BTCUSDT'' ''1d'' True ''kucoin_data''
          ''2024-07-01'' empty_state) = Inl OSError"
proof -
  have t: "fst (download_and_process demo_world ''BTCUSDT'' ''1d'' True ''kucoin_data''
      ''2024-07-01'' empty_state) = Inr (Some frame10)"
    by (simp add: fst_download_and_process demo_fetch)
  have ro: "fst (download_and_process read_only_world ''BTCUSDT'' ''1d'' False ''kucoin_data''
        ''2024-07-01'' empty_state) = Inr (Some frame10)
      \<and> makedirs read_only_world (os_path_join read_only_world ''kucoin_data''
          [''BTCUSDT'', ''1d'']) = None
      \<and> to_csv read_only_world (csv_path read_only_world ''kucoin_data'' ''BTCUSDT'' ''1d''
          ''2024-07-01'') = Some OSError"
    by (simp add: download_and_process_def read_only_world_def demo_world_def download_url_def
        zip_filename_def base_url_def Let_def)
  have posix: "os_path_join demo_world = posixpath_join"
    by (simp add: demo_world_def)
  have p: "csv_path demo_world ''kucoin_data'' ''BTCUSDT'' ''1d'' ''2024-07-01''
      = ''kucoin_data/BTCUSDT/1d/BTCUSDT-1d-2024-07-01.csv''"
    using save_flag_writes_file_and_keeps_value
      [of demo_world "''BTCUSDT''" "''1d''" "''kucoin_data''" "''2024-07-01''" empty_state
        frame10 OSError] posix
    by simp
  show ?thesis
    using t ro
      save_flag_writes_file_and_keeps_value
      [of demo_world "''BTCUSDT''" "''1d''" "''kucoin_data''" "''2024-07-01''" empty_state
        frame10 OSError]
      save_flag_writes_file_and_keeps_value
      [of read_only_world "''BTCUSDT''" "''1d''" "''kucoin_data''" "''2024-07-01''" empty_state
        frame10 OSError]
    unfolding p by blast
qed

text \<open>
  Claim C9 as stated fails in both parts. Where the CSV file cannot be written, the
  fetch returns the frame without the flag and raises with it. And with the empty
  string as output directory the file goes, on POSIX, to a relative path, not to
  \<^verbatim>\<open>/BTCUSDT/1d/BTCUSDT-1d-2024-07-01.csv\<close>.
\<close>

theorem save_flag_changes_value_when_write_fails:
  "fst (download_and_process read_only_world ''BTCUSDT'' ''1d'' False ''kucoin_data''
          ''2024-07-01'' empty_state) = Inr (Some frame10)
   \<and> fst (download_and_process read_only_world ''BTCUSDT'' ''1d'' True ''kucoin_data''
          ''2024-07-01'' empty_state) = Inl OSError
   \<and> csv_path demo_world [] ''BTCUSDT'' ''1d'' ''2024-07-01''
       = ''BTCUSDT/1d/BTCUSDT-1d-2024-07-01.csv''
   \<and> csv_path demo_world [] ''BTCUSDT'' ''1d'' ''2024-07-01''
       \<noteq> [] @ ''/'' @ ''BTCUSDT'' @ ''/'' @ ''1d'' @ ''/'' @ ''BTCUSDT'' @ ''-'' @ ''1d'' @ ''-''
           @ ''2024-07-01'' @ ''.csv''"
  by (simp add: download_and_process_def read_only_world_def demo_world_def download_url_def
      zip_filename_def base_url_def Let_def csv_path_def posixpath_join_def join_component_def)

subsection \<open>Dates listed more than once\<close>

lemma download_url_inj: "download_url t f a = download_url t f b \<longleftrightarrow> a = b"
  by (simp add: download_url_def zip_filename_def)

lemma count_list_urls:
  "count_list (map (download_url t f) xs) (download_url t f d) = count_list xs d"
  by (induction xs) (simp_all add: download_url_inj)

lemma count_list_filter_member:
  "P d \<Longrightarrow> count_list (filter P xs) d = count_list xs d"
  by (induction xs) auto

lemma count_list_success_tables:
  assumes "fetch_result w t f sv od d = Inr (Some df)"
  shows "count_list xs d \<le> count_list (success_tables w t f sv od xs) df"
proof (induction xs)
  case Nil
  show ?case by simp
next
  case (Cons x xs)
  show ?case
  proof (cases "x = d")
    case True
    then show ?thesis using Cons assms
      by (simp add: success_tables_def List.map_filter_def)
  next
    case False
    then show ?thesis using Cons
      by (simp add: success_tables_def List.map_filter_def)
  qed
qed

text \<open>
  Claim C10. The request list made from the caller's list keeps its order and its
  repetitions: it is the caller's list filtered by the listing. A listed date that
  the caller gives \<open>k\<close> times is requested \<open>k\<close> times, and when its fetch succeeds
  its frame is at least \<open>k\<close> times among the frames that \<^verbatim>\<open>pd.concat\<close> stacks into
  the result, whose rows are the rows of these frames.
\<close>

theorem duplicate_dates_are_fetched_again:
  assumes "fst (get_available_dates w t f s) = Inr avail" and "d \<in> set avail"
  shows "effective_dates (Some ds) avail = filter (\<lambda>x. x \<in> set avail) ds
     \<and> count_list (effective_dates (Some ds) avail) d = count_list ds d
     \<and> count_list (requested (snd (get_combined_data w sched t f (Some ds) sv od s)))
          (download_url t f d)
        = count_list (requested s) (download_url t f d) + count_list ds d
     \<and> (fetch_result w t f sv od d = Inr (Some df) \<longrightarrow>
          (\<exists>combined. fst (get_combined_data w sched t f (Some ds) sv od s) = Inr combined
             \<and> rows combined = concat (map
                  (stacked_rows w (success_tables w t f sv od
                     (completion_order sched (effective_dates (Some ds) avail))))
                  (success_tables w t f sv od
                     (completion_order sched (effective_dates (Some ds) avail))))
             \<and> count_list ds d \<le> count_list
                  (success_tables w t f sv od
                    (completion_order sched (effective_dates (Some ds) avail))) df))"
proof -
  let ?eff = "effective_dates (Some ds) avail"
  let ?ord = "completion_order sched ?eff"
  have 1: "?eff = filter (\<lambda>x. x \<in> set avail) ds"
    by (simp add: effective_dates_def)
  have 2: "count_list ?eff d = count_list ds d"
    using assms(2) by (simp add: 1 count_list_filter_member)
  have cnt: "count_list ?ord d = count_list ds d"
    using 2 by (simp only: completion_order_count)
  have "count_list (requested (snd (get_combined_data w sched t f (Some ds) sv od s)))
          (download_url t f d)
      = count_list (requested s) (download_url t f d)
          + count_list (map (download_url t f) ?eff) (download_url t f d)"
    by (simp only: get_combined_data_parts(3) [OF assms(1)] count_list_append)
  then have 3: "count_list (requested (snd (get_combined_data w sched t f (Some ds) sv od s)))
          (download_url t f d)
      = count_list (requested s) (download_url t f d) + count_list ds d"
    by (simp only: count_list_urls 2)
  have 4: "fetch_result w t f sv od d = Inr (Some df) \<longrightarrow>
      (\<exists>combined. fst (get_combined_data w sched t f (Some ds) sv od s) = Inr combined
         \<and> rows combined = concat (map (stacked_rows w (success_tables w t f sv od ?ord))
              (success_tables w t f sv od ?ord))
         \<and> count_list ds d \<le> count_list (success_tables w t f sv od ?ord) df)"
  proof (rule impI)
    assume ok: "fetch_result w t f sv od d = Inr (Some df)"
    have "count_list ?ord d \<le> count_list (success_tables w t f sv od ?ord) df"
      using ok by (rule count_list_success_tables)
    then have le: "count_list ds d \<le> count_list (success_tables w t f sv od ?ord) df"
      by (simp only: cnt)
    obtain combined where "fst (get_combined_data w sched t f (Some ds) sv od s) = Inr combined"
      and "rows combined = concat (map (stacked_rows w (success_tables w t f sv od ?ord))
              (success_tables w t f sv od ?ord))"
      using get_combined_data_returns [OF assms(1), where sched = sched and dates = "Some ds"
          and sv = sv and od = od] by blast
    then show "\<exists>combined. fst (get_combined_data w sched t f (Some ds) sv od s) = Inr combined
         \<and> rows combined = concat (map (stacked_rows w (success_tables w t f sv od ?ord))
              (success_tables w t f sv od ?ord))
         \<and> count_list ds d \<le> count_list (success_tables w t f sv od ?ord) df"
      using le by (intro exI conjI)
  qed
  show ?thesis
    by (rule conjI [OF 1 conjI [OF 2 conjI [OF 3 4]]])
qed

text \<open>
  The first date twice, around a date that is not listed: two requests, and the rows
  of its frame twice.
\<close>

theorem duplicate_dates_are_fetched_again_witness:
  "effective_dates (Some [''2024-07-01'', ''2023-01-01'', ''2024-07-01''])
       [''2024-07-01'', ''2024-07-02'', ''2024-07-03'', ''2024-07-04'', ''2024-07-05'']
     = [''2024-07-01'', ''2024-07-01'']
   \<and> count_list (requested (snd (get_combined_data demo_world [1] ''BTCUSDT'' ''1d''
          (Some [''2024-07-01'', ''2023-01-01'', ''2024-07-01'']) False ''kucoin_data''
          empty_state)))
        (download_url ''BTCUSDT'' ''1d'' ''2024-07-01'') = 2
   \<and> (\<exists>combined. fst (get_combined_data demo_world [1] ''BTCUSDT'' ''1d''
          (Some [''2024-07-01'', ''2023-01-01'', ''2024-07-01'']) False ''kucoin_data''
          empty_state) = Inr combined
        \<and> rows combined = rows frame10 @ rows frame10)"
proof -
  have d: "''2024-07-01''
      \<in> set [''2024-07-01'', ''2024-07-02'', ''2024-07-03'', ''2024-07-04'', ''2024-07-05'']"
    by simp
  have eff: "effective_dates (Some [''2024-07-01'', ''2023-01-01'', ''2024-07-01''])
       [''2024-07-01'', ''2024-07-02'', ''2024-07-03'', ''2024-07-04'', ''2024-07-05'']
     = [''2024-07-01'', ''2024-07-01'']"
    by (simp add: effective_dates_def)
  have ord: "completion_order [1] [''2024-07-01'', ''2024-07-01'']
      = [''2024-07-01'', ''2024-07-01'']"
    by (simp add: completion_order_def)
  have tabs: "success_tables demo_world ''BTCUSDT'' ''1d'' False ''kucoin_data''
      [''2024-07-01'', ''2024-07-01''] = [frame10, frame10]"
    by (simp add: success_tables_def List.map_filter_def demo_fetch)
  have stack: "concat (map (stacked_rows demo_world [frame10, frame10]) [frame10, frame10])
      = rows frame10 @ rows frame10"
    by (simp add: concat_columns_def stacked_rows_def aligned_rows_def demo_world_def
        frame10_def)
  have none: "requested empty_state = []"
    by (simp add: empty_state_def)
  have all: "count_list (requested (snd (get_combined_data demo_world [1] ''BTCUSDT'' ''1d''
          (Some [''2024-07-01'', ''2023-01-01'', ''2024-07-01'']) False ''kucoin_data''
          empty_state)))
        (download_url ''BTCUSDT'' ''1d'' ''2024-07-01'') = 2
     \<and> (\<exists>combined. fst (get_combined_data demo_world [1] ''BTCUSDT'' ''1d''
          (Some [''2024-07-01'', ''2023-01-01'', ''2024-07-01'']) False ''kucoin_data''
          empty_state) = Inr combined
        \<and> rows combined = rows frame10 @ rows frame10)"
    using duplicate_dates_are_fetched_again [where s = empty_state and sched = "[1]"
        and ds = "[''2024-07-01'', ''2023-01-01'', ''2024-07-01'']" and sv = False
        and od = "''kucoin_data''" and df = frame10, OF demo_listing d]
      demo_fetch_01 [of False "''kucoin_data''"]
    unfolding eff ord tabs stack none by auto
  show ?thesis using all eff by blast
qed

subsection \<open>Every completion order is one of the scheduler's\<close>

text \<open>
  The choices given to \<open>as_completed\<close> reach every order of the futures, so a
  property proved for all choices holds for every completion order.
\<close>

lemma as_completed_step:
  assumes "k < length xs"
  shows "as_completed (k # cs) xs = xs ! k # as_completed cs (take k xs @ drop (Suc k) xs)"
proof (cases xs)
  case Nil
  then show ?thesis using assms by simp
next
  case (Cons x xs')
  have "k mod length (x # xs') = k"
    using assms Cons by simp
  then show ?thesis
    unfolding Cons by (simp only: as_completed.simps Let_def)
qed

lemma as_completed_any_order:
  assumes "mset ys = mset xs"
  shows "\<exists>cs. as_completed cs xs = ys"
  using assms
proof (induction ys arbitrary: xs)
  case Nil
  then show ?case by simp
next
  case (Cons y ys)
  have "y \<in> set xs"
    using Cons.prems by (metis list.set_intros(1) set_mset_mset)
  then obtain k where k: "k < length xs" and y: "xs ! k = y"
    by (auto simp: in_set_conv_nth)
  let ?rest = "take k xs @ drop (Suc k) xs"
  have "xs = take k xs @ xs ! k # drop (Suc k) xs"
    using k by (rule id_take_nth_drop)
  then have "mset xs = mset ?rest + {#y#}"
    using y by (metis mset.simps(2) mset_append union_mset_add_mset_right add.right_neutral
        union_mset_add_mset_left)
  then have "mset ys = mset ?rest"
    using Cons.prems by simp
  then obtain cs where "as_completed cs ?rest = ys"
    using Cons.IH by blast
  then have "as_completed (k # cs) xs = y # ys"
    using as_completed_step [OF k, of cs] y by simp
  then show ?case by blast
qed

end
